theory Spec2Isabelle
  imports Complex_Main "HOL-Library.AList"
begin

section \<open>JavaScript values\<close>

text \<open>
  Numbers are exact rationals (NaN and the infinities are outside the model), an optional
  property is an \<open>option\<close> (\<open>None\<close> is \<open>undefined\<close>), strings are ASCII character lists.
  \<open>a || b\<close> yields \<open>a\<close> when \<open>a\<close> is truthy and \<open>b\<close> otherwise; the empty string, zero and
  \<open>undefined\<close> are falsy.
\<close>

definition truthy_str :: "string option \<Rightarrow> bool" where
  "truthy_str a = (case a of None \<Rightarrow> False | Some s \<Rightarrow> s \<noteq> [])"

definition truthy_num :: "rat option \<Rightarrow> bool" where
  "truthy_num a = (case a of None \<Rightarrow> False | Some r \<Rightarrow> r \<noteq> 0)"

definition or_str :: "string option \<Rightarrow> string option \<Rightarrow> string option" where
  "or_str a b = (if truthy_str a then a else b)"

definition or_num :: "rat option \<Rightarrow> rat option \<Rightarrow> rat option" where
  "or_num a b = (if truthy_num a then a else b)"

text \<open>\<open>a || b\<close> where \<open>b\<close> is a string that is always present.\<close>

definition or_name :: "string option \<Rightarrow> string \<Rightarrow> string" where
  "or_name a b = (case a of None \<Rightarrow> b | Some s \<Rightarrow> if s \<noteq> [] then s else b)"

text \<open>\<open>String.prototype.toLowerCase\<close>, \<open>trim\<close> and \<open>includes\<close> on ASCII strings.\<close>

definition lower_char :: "char \<Rightarrow> char" where
  "lower_char c =
     (let n = (of_char c :: nat) in if 65 \<le> n \<and> n \<le> 90 then char_of (n + 32) else c)"

definition toLowerCase :: "string \<Rightarrow> string" where
  "toLowerCase s = map lower_char s"

definition is_space :: "char \<Rightarrow> bool" where
  "is_space c = (of_char c \<in> {9, 10, 11, 12, 13, 32 :: nat})"

definition trim :: "string \<Rightarrow> string" where
  "trim s = rev (dropWhile is_space (rev (dropWhile is_space s)))"

fun starts_with :: "string \<Rightarrow> string \<Rightarrow> bool" where
  "starts_with s [] = True"
| "starts_with [] (k # ks) = False"
| "starts_with (c # cs) (k # ks) = (c = k \<and> starts_with cs ks)"

fun str_includes :: "string \<Rightarrow> string \<Rightarrow> bool" where
  "str_includes [] k = (k = [])"
| "str_includes (c # cs) k = (starts_with (c # cs) k \<or> str_includes cs k)"

section \<open>Data model (types.ts)\<close>

record FundHolding =
  h_name :: string
  h_symbol :: "string option"
  h_sector :: "string option"
  h_percentage :: rat
  h_value :: "rat option"
  h_quantity :: "rat option"
  h_pe :: "rat option"
  h_marketCap :: "string option"
  h_priceChange :: "rat option"

record SectorAllocation =
  sa_sector :: string
  sa_percentage :: rat

record AssetAllocation =
  aa_type :: string
  aa_percentage :: rat

record FundMetrics =
  peRatio :: "rat option"
  pbRatio :: "rat option"
  dividendYield :: "rat option"
  avgMarketCap :: "string option"
  turnoverRatio :: "rat option"
  standardDeviation :: "rat option"
  sharpeRatio :: "rat option"
  beta :: "rat option"
  alpha :: "rat option"

text \<open>\<open>lastUpdated\<close> holds the instant (in milliseconds) that \<open>toISOString\<close> renders.\<close>

record FundPortfolio =
  fundName :: string
  isin :: string
  schemeCode :: "string option"
  category :: "string option"
  fundHouse :: "string option"
  aum :: "string option"
  expenseRatio :: "string option"
  nav :: "rat option"
  navDate :: "string option"
  holdings :: "FundHolding list"
  sectorAllocation :: "SectorAllocation list"
  assetAllocation :: "AssetAllocation list"
  metrics :: "FundMetrics option"
  lastUpdated :: int
  source :: string
  error :: "string option"

text \<open>The \<open>Partial<FundPortfolio>\<close> that \<open>fetchFromMFAPI\<close> builds: it sets exactly these fields.\<close>

record FundInfo =
  i_fundName :: string
  i_isin :: string
  i_schemeCode :: string
  i_category :: string
  i_fundHouse :: string
  i_nav :: "rat option"
  i_navDate :: string
  i_source :: string

section \<open>The providers, as seen by one call\<close>

text \<open>
  What the network answers is an input of the model. \<open>mfapi_search\<close> is the scheme code
  that \<open>getSchemeCode\<close> obtains (\<open>None\<close> on any failure), \<open>mfapi_scheme\<close> the scheme document,
  and \<open>provider_page\<close> what an adapter has extracted from its provider just before it filters
  the rows and builds its result (\<open>None\<close> when any earlier step fails or throws, which every
  adapter catches and turns into \<open>null\<close>).
\<close>

datatype provider = Groww | Tickertape | Moneycontrol | ValueResearch | ETMoney

record mfapi_doc =
  scheme_name :: "string option"
  scheme_category :: "string option"
  fund_house :: "string option"
  nav0 :: "rat option"
  date0 :: "string option"

record page =
  pg_name :: "string option"
  pg_isin :: "string option"
  pg_category :: "string option"
  pg_fundHouse :: "string option"
  pg_nav :: "rat option"
  pg_rows :: "FundHolding list"
  pg_tables :: "FundHolding list list"
  pg_sectors :: "SectorAllocation list"
  pg_now :: int

record world =
  mfapi_search :: "string \<Rightarrow> string option"
  mfapi_scheme :: "string \<Rightarrow> mfapi_doc option"
  provider_page :: "provider \<Rightarrow> string \<Rightarrow> string \<Rightarrow> page option"

subsection \<open>scrapers/mfapi.ts\<close>

definition getSchemeCode :: "world \<Rightarrow> string \<Rightarrow> string option" where
  "getSchemeCode w i = mfapi_search w i"

definition fetchFromMFAPI :: "world \<Rightarrow> string \<Rightarrow> FundInfo option" where
  "fetchFromMFAPI w i =
     (case getSchemeCode w i of
        None \<Rightarrow> None
      | Some code \<Rightarrow>
          if code = [] then None
          else (case mfapi_scheme w code of
                  None \<Rightarrow> None
                | Some d \<Rightarrow>
                    Some \<lparr> i_fundName = or_name (scheme_name d) [],
                           i_isin = i,
                           i_schemeCode = code,
                           i_category = or_name (scheme_category d) [],
                           i_fundHouse = or_name (fund_house d) [],
                           i_nav = nav0 d,
                           i_navDate = or_name (date0 d) [],
                           i_source = ''MFAPI'' \<rparr>))"

subsection \<open>The five source adapters\<close>

definition build :: "string \<Rightarrow> string \<Rightarrow> FundHolding list \<Rightarrow> SectorAllocation list \<Rightarrow> int
    \<Rightarrow> string \<Rightarrow> FundPortfolio" where
  "build fname i hs ss t src =
     \<lparr> fundName = fname, isin = i, schemeCode = None, category = None, fundHouse = None,
       aum = None, expenseRatio = None, nav = None, navDate = None, holdings = hs,
       sectorAllocation = ss, assetAllocation = [], metrics = None, lastUpdated = t,
       source = src, error = None \<rparr>"

definition scrapeGroww :: "world \<Rightarrow> string \<Rightarrow> string \<Rightarrow> FundPortfolio option" where
  "scrapeGroww w i fname =
     (case provider_page w Groww i fname of
        None \<Rightarrow> None
      | Some pg \<Rightarrow>
          (let hs = filter (\<lambda>h. h_percentage h > 0) (pg_rows pg);
               ss = filter (\<lambda>s. sa_percentage s > 0) (pg_sectors pg)
           in if length hs > 0
              then Some ((build (or_name (pg_name pg) fname) (or_name (pg_isin pg) i) hs ss
                            (pg_now pg) ''Groww'')
                         \<lparr> category := pg_category pg, fundHouse := pg_fundHouse pg,
                           nav := pg_nav pg \<rparr>)
              else None))"

definition scrapeTickertape :: "world \<Rightarrow> string \<Rightarrow> string \<Rightarrow> FundPortfolio option" where
  "scrapeTickertape w i fname =
     (case provider_page w Tickertape i fname of
        None \<Rightarrow> None
      | Some pg \<Rightarrow>
          (let hs = filter (\<lambda>h. h_percentage h > 0) (pg_rows pg)
           in if length hs > 0
              then Some (build (or_name (pg_name pg) fname) i hs [] (pg_now pg) ''Tickertape'')
              else None))"

text \<open>
  Moneycontrol tries its table selectors in turn and keeps the rows of the first one that
  yields a holding; \<open>pg_tables\<close> holds the rows found under each selector.
\<close>

definition mc_keep :: "FundHolding \<Rightarrow> bool" where
  "mc_keep h = (h_name h \<noteq> [] \<and> h_percentage h > 0
                \<and> \<not> str_includes (toLowerCase (h_name h)) ''total'')"

fun mc_select :: "FundHolding list list \<Rightarrow> FundHolding list" where
  "mc_select [] = []"
| "mc_select (rows # rest) =
     (let hs = filter mc_keep rows in if length hs > 0 then hs else mc_select rest)"

definition scrapeMoneycontrol :: "world \<Rightarrow> string \<Rightarrow> string \<Rightarrow> FundPortfolio option" where
  "scrapeMoneycontrol w i fname =
     (case provider_page w Moneycontrol i fname of
        None \<Rightarrow> None
      | Some pg \<Rightarrow>
          (let hs = mc_select (pg_tables pg);
               ss = filter (\<lambda>s. sa_sector s \<noteq> [] \<and> sa_percentage s > 0) (pg_sectors pg)
           in if length hs > 0
              then Some (build (or_name (pg_name pg) fname) i hs ss (pg_now pg) ''Moneycontrol'')
              else None))"

definition scrapeValueResearch :: "world \<Rightarrow> string \<Rightarrow> string \<Rightarrow> FundPortfolio option" where
  "scrapeValueResearch w i fname =
     (case provider_page w ValueResearch i fname of
        None \<Rightarrow> None
      | Some pg \<Rightarrow>
          (let hs = filter (\<lambda>h. h_name h \<noteq> [] \<and> h_percentage h > 0 \<and> h_name h \<noteq> ''Total'')
                      (pg_rows pg)
           in if length hs > 0
              then Some (build (or_name (pg_name pg) fname) i hs [] (pg_now pg) ''Value Research'')
              else None))"

definition scrapeETMoney :: "world \<Rightarrow> string \<Rightarrow> string \<Rightarrow> FundPortfolio option" where
  "scrapeETMoney w i fname =
     (case provider_page w ETMoney i fname of
        None \<Rightarrow> None
      | Some pg \<Rightarrow>
          (let hs = filter (\<lambda>h. h_percentage h > 0) (pg_rows pg)
           in if length hs > 0
              then Some (build (or_name (pg_name pg) fname) i hs [] (pg_now pg) ''ET Money'')
              else None))"

section \<open>Composition cache (cache.ts)\<close>

record CacheEntry =
  data :: FundPortfolio
  timestamp :: int

type_synonym portfolioCache = "string \<rightharpoonup> CacheEntry"

definition CACHE_TTL :: int where
  "CACHE_TTL = 24 * 60 * 60 * 1000"

text \<open>Both operations take the value of \<open>Date.now()\<close> and return the cache as they leave it.\<close>

definition getCachedPortfolio :: "portfolioCache \<Rightarrow> int \<Rightarrow> string
    \<Rightarrow> FundPortfolio option \<times> portfolioCache" where
  "getCachedPortfolio c now i =
     (case c i of
        None \<Rightarrow> (None, c)
      | Some entry \<Rightarrow>
          if now - timestamp entry > CACHE_TTL then (None, c(i := None))
          else (Some (data entry), c))"

definition cachePortfolio :: "portfolioCache \<Rightarrow> int \<Rightarrow> string \<Rightarrow> FundPortfolio \<Rightarrow> portfolioCache" where
  "cachePortfolio c now i d = c(i \<mapsto> \<lparr> data = d, timestamp = now \<rparr>)"

section \<open>Composition resolver (index.ts)\<close>

text \<open>
  An awaited call either resolves with a value or rejects; the resolver's \<open>try/catch\<close>
  around each adapter makes a rejection one more way of failing.
\<close>

datatype 'a outcome = Rejects | Resolves 'a

record scraper =
  sc_name :: string
  sc_fn :: "world \<Rightarrow> string \<Rightarrow> string \<Rightarrow> FundPortfolio option outcome"

definition SCRAPERS :: "scraper list" where
  "SCRAPERS =
     [ \<lparr> sc_name = ''Groww'', sc_fn = (\<lambda>w i n. Resolves (scrapeGroww w i n)) \<rparr>,
       \<lparr> sc_name = ''Tickertape'', sc_fn = (\<lambda>w i n. Resolves (scrapeTickertape w i n)) \<rparr>,
       \<lparr> sc_name = ''Moneycontrol'', sc_fn = (\<lambda>w i n. Resolves (scrapeMoneycontrol w i n)) \<rparr>,
       \<lparr> sc_name = ''ValueResearch'', sc_fn = (\<lambda>w i n. Resolves (scrapeValueResearch w i n)) \<rparr>,
       \<lparr> sc_name = ''ETMoney'', sc_fn = (\<lambda>w i n. Resolves (scrapeETMoney w i n)) \<rparr> ]"

text \<open>
  What a call does to the outside: the registry lookup and each adapter invocation, in the
  order they happen.
\<close>

datatype event = CallMFAPI string | CallScraper string string string

text \<open>An adapter's answer counts when it is a portfolio with at least one holding.\<close>

definition accepted :: "FundPortfolio option outcome \<Rightarrow> FundPortfolio option" where
  "accepted r =
     (case r of
        Rejects \<Rightarrow> None
      | Resolves None \<Rightarrow> None
      | Resolves (Some p) \<Rightarrow> if length (holdings p) > 0 then Some p else None)"

text \<open>The \<open>for (const scraper of SCRAPERS)\<close> loop with its \<open>break\<close>.\<close>

fun try_scrapers :: "scraper list \<Rightarrow> world \<Rightarrow> string \<Rightarrow> string
    \<Rightarrow> FundPortfolio option \<times> event list" where
  "try_scrapers [] w i n = (None, [])"
| "try_scrapers (s # ss) w i n =
     (case accepted (sc_fn s w i n) of
        Some p \<Rightarrow> (Some p, [CallScraper (sc_name s) i n])
      | None \<Rightarrow>
          (case try_scrapers ss w i n of
             (r, tr) \<Rightarrow> (r, CallScraper (sc_name s) i n # tr)))"

record resolution =
  returned :: FundPortfolio
  cache_after :: portfolioCache
  trace :: "event list"

text \<open>
  \<open>t0\<close> is the clock when the cache is read, \<open>t1\<close> the clock when the result is built and
  cached.
\<close>

definition fetchFundPortfolio :: "world \<Rightarrow> int \<Rightarrow> int \<Rightarrow> portfolioCache \<Rightarrow> string \<Rightarrow> string
    \<Rightarrow> resolution" where
  "fetchFundPortfolio w t0 t1 c i fname =
     (case getCachedPortfolio c t0 i of
        (Some cached, c') \<Rightarrow> \<lparr> returned = cached, cache_after = c', trace = [] \<rparr>
      | (None, c') \<Rightarrow>
          (let mfapiData = fetchFromMFAPI w i in
           case try_scrapers SCRAPERS w i fname of
             (Some portfolio, tr) \<Rightarrow>
               (let result = portfolio
                      \<lparr> fundName := or_name (map_option i_fundName mfapiData)
                                       (or_name (Some (fundName portfolio)) fname),
                        category := or_str (map_option i_category mfapiData) (category portfolio),
                        fundHouse := map_option i_fundHouse mfapiData,
                        nav := or_num (Option.bind mfapiData i_nav) (nav portfolio),
                        navDate := map_option i_navDate mfapiData \<rparr>
                in \<lparr> returned = result, cache_after = cachePortfolio c' t1 i result,
                     trace = CallMFAPI i # tr \<rparr>)
           | (None, tr) \<Rightarrow>
               \<lparr> returned =
                   \<lparr> fundName = or_name (map_option i_fundName mfapiData) fname,
                     isin = i, schemeCode = None,
                     category = map_option i_category mfapiData,
                     fundHouse = map_option i_fundHouse mfapiData,
                     aum = None, expenseRatio = None,
                     nav = Option.bind mfapiData i_nav,
                     navDate = map_option i_navDate mfapiData,
                     holdings = [], sectorAllocation = [], assetAllocation = [],
                     metrics = None, lastUpdated = t1,
                     source = ''No data available'',
                     error = Some ''Failed to fetch holdings from all sources'' \<rparr>,
                 cache_after = c', trace = CallMFAPI i # tr \<rparr>))"

subsection \<open>Concrete inputs\<close>

definition ex_holding :: FundHolding where
  "ex_holding = \<lparr> h_name = ''Acme Ltd'', h_symbol = None, h_sector = None, h_percentage = 40,
     h_value = None, h_quantity = None, h_pe = None, h_marketCap = None, h_priceChange = None \<rparr>"

definition ex_page :: page where
  "ex_page = \<lparr> pg_name = Some ''Provider Fund'', pg_isin = None, pg_category = Some ''Large Cap'',
     pg_fundHouse = Some ''Provider House'', pg_nav = Some 10, pg_rows = [ex_holding],
     pg_tables = [[ex_holding]], pg_sectors = [], pg_now = 5 \<rparr>"

definition ex_world :: "provider \<Rightarrow> world" where
  "ex_world winner =
     \<lparr> mfapi_search = (\<lambda>i. Some ''100''),
       mfapi_scheme = (\<lambda>code. Some \<lparr> scheme_name = Some ''Registry Fund'',
          scheme_category = Some ''Equity'', fund_house = Some ''Registry House'',
          nav0 = Some 12, date0 = Some ''01-01-2025'' \<rparr>),
       provider_page = (\<lambda>p i n. if p = winner then Some ex_page else None) \<rparr>"

definition dead_world :: world where
  "dead_world = \<lparr> mfapi_search = (\<lambda>i. None), mfapi_scheme = (\<lambda>code. None),
       provider_page = (\<lambda>p i n. None) \<rparr>"

definition stale_cache :: portfolioCache where
  "stale_cache = [''INF1'' \<mapsto> \<lparr> data = build ''Old'' ''INF1'' [ex_holding] [] 0 ''Groww'', timestamp = 0 \<rparr>]"

section \<open>Ratio cache (peCache.ts)\<close>

text \<open>The object \<open>{ pe?, marketCap?, symbol? }\<close> that a lookup yields.\<close>

record PEData =
  d_pe :: "rat option"
  d_marketCap :: "string option"
  d_symbol :: "string option"

record PECacheEntry =
  ce_pe :: "rat option"
  ce_marketCap :: "string option"
  ce_symbol :: "string option"
  ce_timestamp :: int

type_synonym peCache = "string \<rightharpoonup> PECacheEntry"

definition PE_CACHE_TTL :: int where
  "PE_CACHE_TTL = 24 * 60 * 60 * 1000"

definition getCachedPE :: "peCache \<Rightarrow> int \<Rightarrow> string \<Rightarrow> PECacheEntry option \<times> peCache" where
  "getCachedPE c now stockName =
     (let key = trim (toLowerCase stockName) in
      case c key of
        None \<Rightarrow> (None, c)
      | Some entry \<Rightarrow>
          if now - ce_timestamp entry > PE_CACHE_TTL then (None, c(key := None))
          else (Some entry, c))"

definition cachePE :: "peCache \<Rightarrow> int \<Rightarrow> string \<Rightarrow> PEData \<Rightarrow> peCache" where
  "cachePE c now stockName d =
     c(trim (toLowerCase stockName) \<mapsto>
         \<lparr> ce_pe = d_pe d, ce_marketCap = d_marketCap d, ce_symbol = d_symbol d,
           ce_timestamp = now \<rparr>)"

section \<open>Ratio enricher (utils.ts, peEnricher.ts)\<close>

definition debtKeywords :: "string list" where
  "debtKeywords =
     [''government'', ''g-sec'', ''gsec'', ''treasury'', ''t-bill'', ''ncd'',
      ''debenture'', ''bond'', ''cp'', ''cd'', ''certificate'', ''deposit'',
      ''repo'', ''cblo'', ''%'', ''sovereign'']"

definition isDebtInstrument :: "string \<Rightarrow> bool" where
  "isDebtInstrument name =
     (let lowerName = toLowerCase name in list_ex (\<lambda>keyword. str_includes lowerName keyword) debtKeywords)"

text \<open>
  The two ratio providers are reached through \<open>fetchPEFromScreener\<close> and
  \<open>searchNSESymbol\<close>, which catch every failure and answer \<open>null\<close>. What each answers for a
  name is an input of the model, and every call of either is recorded with the position of
  the name in the request. \<open>sources j\<close> are the answers given to the lookup at position \<open>j\<close>.
\<close>

record ratio_sources =
  screener :: "string \<Rightarrow> PEData option"
  nseSymbol :: "string \<Rightarrow> string option"

datatype effect = AskScreener nat string | AskNSE nat string | Sleep nat

definition no_data :: PEData where
  "no_data = \<lparr> d_pe = None, d_marketCap = None, d_symbol = None \<rparr>"

definition symbol_only :: "ratio_sources \<Rightarrow> nat \<Rightarrow> string \<Rightarrow> PEData \<times> effect list" where
  "symbol_only src j stockName =
     (let symbol = nseSymbol src stockName in
      if truthy_str symbol then (no_data \<lparr> d_symbol := symbol \<rparr>, [AskNSE j stockName])
      else (no_data, [AskNSE j stockName]))"

definition fetchStockPE :: "ratio_sources \<Rightarrow> nat \<Rightarrow> string \<Rightarrow> PEData \<times> effect list" where
  "fetchStockPE src j stockName =
     (case screener src stockName of
        Some screenerData \<Rightarrow>
          if truthy_num (d_pe screenerData) then (screenerData, [AskScreener j stockName])
          else (case symbol_only src j stockName of
                  (d, evs) \<Rightarrow> (d, AskScreener j stockName # evs))
      | None \<Rightarrow>
          (case symbol_only src j stockName of
             (d, evs) \<Rightarrow> (d, AskScreener j stockName # evs)))"

subsection \<open>The bulk pipeline\<close>

text \<open>One element of \<open>batch.map\<close> in \<open>enrichHoldingsWithPE\<close>.\<close>

definition enrich_one :: "(nat \<Rightarrow> ratio_sources) \<Rightarrow> nat \<Rightarrow> FundHolding \<Rightarrow> FundHolding \<times> effect list" where
  "enrich_one sources j holding =
     (if isDebtInstrument (h_name holding) then (holding, [])
      else (case fetchStockPE (sources j) j (h_name holding) of
              (peData, evs) \<Rightarrow>
                (holding \<lparr> h_symbol := or_str (d_symbol peData) (h_symbol holding),
                           h_pe := or_num (d_pe peData) (h_pe holding),
                           h_marketCap := or_str (d_marketCap peData) (h_marketCap holding) \<rparr>,
                 evs)))"

fun enrich_batch :: "(nat \<Rightarrow> ratio_sources) \<Rightarrow> nat \<Rightarrow> FundHolding list \<Rightarrow> FundHolding list \<times> effect list" where
  "enrich_batch sources j [] = ([], [])"
| "enrich_batch sources j (h # hs) =
     (case enrich_one sources j h of
        (h', evs) \<Rightarrow>
          (case enrich_batch sources (Suc j) hs of
             (hs', evs') \<Rightarrow> (h' # hs', evs @ evs')))"

text \<open>The loop \<open>for (let i = 0; i < holdings.length; i += batchSize)\<close>, from position \<open>i\<close> on.\<close>

function enrich_from :: "(nat \<Rightarrow> ratio_sources) \<Rightarrow> nat \<Rightarrow> FundHolding list \<Rightarrow> FundHolding list \<times> effect list" where
  "enrich_from sources i hs =
     (if i < length hs
      then (case enrich_batch sources i (take 5 (drop i hs)) of
              (batchResults, evs) \<Rightarrow>
                (case enrich_from sources (i + 5) hs of
                   (rest, evs') \<Rightarrow>
                     (batchResults @ rest,
                      evs @ (if i + 5 < length hs then [Sleep 200] else []) @ evs')))
      else ([], []))"
  by pat_completeness auto
termination
  by (relation "measure (\<lambda>(sources, i, hs). length hs - i)") auto

declare enrich_from.simps [simp del]

definition enrichHoldingsWithPE :: "(nat \<Rightarrow> ratio_sources) \<Rightarrow> FundHolding list \<Rightarrow> FundHolding list \<times> effect list" where
  "enrichHoldingsWithPE sources hs = enrich_from sources 0 hs"

section \<open>Ratio batch endpoint (api/mf/pe/batch/route.ts)\<close>

record PEResult =
  r_name :: string
  r_pe :: "rat option"
  r_marketCap :: "string option"
  r_symbol :: "string option"

text \<open>
  A request body either fails to parse, parses without the expected array, or carries it;
  a response is its status and, for 200, its payload.
\<close>

datatype 'a body = Malformed | Missing | Payload 'a

datatype 'a response = Status401 | Status400 | Status500 | Status200 'a

text \<open>
  Every callback of \<open>batch.map\<close> runs up to its first \<open>await\<close> before any lookup settles, so
  all cache reads come first, at the clock \<open>now\<close>, in the order of the batch.
\<close>

fun check_cache :: "peCache \<Rightarrow> int \<Rightarrow> string list \<Rightarrow> (string \<times> PECacheEntry option) list \<times> peCache" where
  "check_cache c now [] = ([], c)"
| "check_cache c now (s # ss) =
     (case getCachedPE c now s of
        (e, c') \<Rightarrow>
          (case check_cache c' now ss of
             (es, c'') \<Rightarrow> ((s, e) # es, c'')))"

text \<open>
  The rest of each callback: a cached entry is returned, a missed name is looked up, its
  answer cached at the clock \<open>done_at j\<close> and returned. \<open>fetchStockPE\<close> cannot reject, which
  leaves the callback's \<open>catch\<close> without a case. The cache writes are applied in the order
  of the batch.
\<close>

fun settle :: "(nat \<Rightarrow> ratio_sources) \<Rightarrow> (nat \<Rightarrow> int) \<Rightarrow> nat \<Rightarrow> peCache
    \<Rightarrow> (string \<times> PECacheEntry option) list \<Rightarrow> PEResult list \<times> peCache \<times> effect list" where
  "settle sources done_at j c [] = ([], c, [])"
| "settle sources done_at j c ((stockName, Some cached) # rest) =
     (case settle sources done_at (Suc j) c rest of
        (rs, c', evs) \<Rightarrow>
          (\<lparr> r_name = stockName, r_pe = ce_pe cached, r_marketCap = ce_marketCap cached,
             r_symbol = ce_symbol cached \<rparr> # rs, c', evs))"
| "settle sources done_at j c ((stockName, None) # rest) =
     (case fetchStockPE (sources j) j stockName of
        (peData, evs) \<Rightarrow>
          (case settle sources done_at (Suc j) (cachePE c (done_at j) stockName peData) rest of
             (rs, c', evs') \<Rightarrow>
               (\<lparr> r_name = stockName, r_pe = d_pe peData, r_marketCap = d_marketCap peData,
                  r_symbol = d_symbol peData \<rparr> # rs, c', evs @ evs')))"

record batch_run =
  response :: "PEResult list response"
  pe_cache_after :: peCache
  effects :: "effect list"

definition POST_batch :: "(nat \<Rightarrow> ratio_sources) \<Rightarrow> int \<Rightarrow> (nat \<Rightarrow> int) \<Rightarrow> peCache
    \<Rightarrow> string list body \<Rightarrow> batch_run" where
  "POST_batch sources now done_at c b =
     (case b of
        Malformed \<Rightarrow> \<lparr> response = Status500, pe_cache_after = c, effects = [] \<rparr>
      | Missing \<Rightarrow> \<lparr> response = Status400, pe_cache_after = c, effects = [] \<rparr>
      | Payload stocks \<Rightarrow>
          (let batch = take 10 stocks in
           case check_cache c now batch of
             (checked, c') \<Rightarrow>
               (case settle sources done_at 0 c' checked of
                  (results, c'', evs) \<Rightarrow>
                    \<lparr> response = Status200 results, pe_cache_after = c'', effects = evs \<rparr>)))"

text \<open>What the callback for the name at position \<open>j\<close> returns, given what the cache read gave.\<close>

definition result_of :: "(nat \<Rightarrow> ratio_sources) \<Rightarrow> nat \<Rightarrow> string \<times> PECacheEntry option \<Rightarrow> PEResult" where
  "result_of sources j x =
     (case snd x of
        Some cached \<Rightarrow> \<lparr> r_name = fst x, r_pe = ce_pe cached, r_marketCap = ce_marketCap cached,
                          r_symbol = ce_symbol cached \<rparr>
      | None \<Rightarrow> (let d = fst (fetchStockPE (sources j) j (fst x)) in
                 \<lparr> r_name = fst x, r_pe = d_pe d, r_marketCap = d_marketCap d, r_symbol = d_symbol d \<rparr>))"

subsection \<open>Concrete inputs\<close>

definition gilt :: string where
  "gilt = ''7.26% GOI 2033''"

definition gilt_sources :: "nat \<Rightarrow> ratio_sources" where
  "gilt_sources j =
     \<lparr> screener = (\<lambda>s. if s = gilt
                         then Some \<lparr> d_pe = Some 12, d_marketCap = Some ''1 Cr'', d_symbol = Some ''GOI'' \<rparr>
                         else None),
       nseSymbol = (\<lambda>s. None) \<rparr>"

definition fifteen :: "string list" where
  "fifteen = [''a0'', ''a1'', ''a2'', ''a3'', ''a4'', ''a5'', ''a6'', ''a7'', ''a8'', ''a9'',
              ''b0'', ''b1'', ''b2'', ''b3'', ''b4'']"

definition odd_sources :: "nat \<Rightarrow> ratio_sources" where
  "odd_sources j =
     \<lparr> screener = (\<lambda>s. if odd j then Some \<lparr> d_pe = Some 20, d_marketCap = None, d_symbol = Some s \<rparr>
                         else None),
       nseSymbol = (\<lambda>s. None) \<rparr>"

definition warm_cache :: peCache where
  "warm_cache = [''a2'' \<mapsto> \<lparr> ce_pe = Some 7, ce_marketCap = Some ''9 Cr'', ce_symbol = Some ''A2'',
                            ce_timestamp = 0 \<rparr>]"

section \<open>Aggregation engine (the top-holdings route)\<close>

record MFHoldingIn =
  tradingsymbol :: string
  fund :: string
  last_price :: rat
  quantity :: rat

record ConsolidatedFund =
  cf_tradingsymbol :: string
  cf_fund :: string
  totalValue :: rat

record FundShare =
  fs_name :: string
  fs_percentage :: rat
  fs_value :: rat

record AggregatedHolding =
  a_name :: string
  a_symbol :: "string option"
  a_totalValue :: rat
  a_totalPercentage :: rat
  a_funds :: "FundShare list"
  a_pe :: "rat option"
  a_marketCap :: "string option"
  a_sector :: "string option"

text \<open>
  A JavaScript \<open>Map\<close> keeps its keys in insertion order: it is an association list in which
  \<open>set\<close> on a present key replaces the value in place and on a new key appends
  (\<open>AList.update\<close>), and a mutation of the stored object is \<open>AList.map_entry\<close>.
\<close>

subsection \<open>Consolidation by fund name\<close>

text \<open>One iteration of \<open>for (const mf of mfHoldings)\<close>.\<close>

definition consolidate_step :: "(string \<times> ConsolidatedFund) list \<times> rat \<Rightarrow> MFHoldingIn
    \<Rightarrow> (string \<times> ConsolidatedFund) list \<times> rat" where
  "consolidate_step st mf =
     (case st of
        (consolidatedFunds, totalPortfolioValue) \<Rightarrow>
          (let v = last_price mf * quantity mf;
               key = fund mf
           in (if map_of consolidatedFunds key \<noteq> None
               then AList.map_entry key (\<lambda>cf. cf \<lparr> totalValue := totalValue cf + v \<rparr>)
                      consolidatedFunds
               else AList.update key
                      \<lparr> cf_tradingsymbol = tradingsymbol mf, cf_fund = fund mf, totalValue = v \<rparr>
                      consolidatedFunds,
               totalPortfolioValue + v)))"

definition consolidate :: "MFHoldingIn list \<Rightarrow> (string \<times> ConsolidatedFund) list \<times> rat" where
  "consolidate mfHoldings = foldl consolidate_step ([], 0) mfHoldings"

definition uniqueFunds :: "MFHoldingIn list \<Rightarrow> ConsolidatedFund list" where
  "uniqueFunds mfHoldings = map snd (fst (consolidate mfHoldings))"

subsection \<open>Merging constituents\<close>

definition dedup_key :: "string \<Rightarrow> string" where
  "dedup_key name = trim (toLowerCase name)"

fun upd_first :: "('a \<Rightarrow> bool) \<Rightarrow> ('a \<Rightarrow> 'a) \<Rightarrow> 'a list \<Rightarrow> 'a list" where
  "upd_first P f [] = []"
| "upd_first P f (x # xs) = (if P x then f x # xs else x # upd_first P f xs)"

text \<open>
  The contribution of fund \<open>n\<close> to a record: added to the entry that \<open>find\<close> returns, or
  pushed as a new entry.
\<close>

definition add_share :: "string \<Rightarrow> rat \<Rightarrow> rat \<Rightarrow> FundShare list \<Rightarrow> FundShare list" where
  "add_share n p v funds =
     (if list_ex (\<lambda>f. fs_name f = n) funds
      then upd_first (\<lambda>f. fs_name f = n)
             (\<lambda>f. f \<lparr> fs_percentage := fs_percentage f + p, fs_value := fs_value f + v \<rparr>) funds
      else funds @ [\<lparr> fs_name = n, fs_percentage = p, fs_value = v \<rparr>])"

text \<open>The body of \<open>for (const holding of portfolio.holdings)\<close>.\<close>

definition merge_holding :: "ConsolidatedFund \<Rightarrow> rat \<Rightarrow> rat \<Rightarrow> (string \<times> AggregatedHolding) list
    \<Rightarrow> FundHolding \<Rightarrow> (string \<times> AggregatedHolding) list" where
  "merge_holding mf fundValue fundWeight holdingsMap holding =
     (let holdingValueInFund = h_percentage holding / 100 * fundValue;
          holdingPercentageInPortfolio = h_percentage holding / 100 * fundWeight;
          key = dedup_key (h_name holding)
      in case map_of holdingsMap key of
           Some existing \<Rightarrow>
             AList.update key
               (existing
                  \<lparr> a_totalValue := a_totalValue existing + holdingValueInFund,
                    a_totalPercentage := a_totalPercentage existing + holdingPercentageInPortfolio,
                    a_funds := add_share (cf_fund mf) (h_percentage holding) holdingValueInFund
                                 (a_funds existing),
                    a_pe := (if \<not> truthy_num (a_pe existing) \<and> truthy_num (h_pe holding)
                             then h_pe holding else a_pe existing),
                    a_marketCap := (if \<not> truthy_str (a_marketCap existing)
                                        \<and> truthy_str (h_marketCap holding)
                                    then h_marketCap holding else a_marketCap existing),
                    a_sector := (if \<not> truthy_str (a_sector existing) \<and> truthy_str (h_sector holding)
                                 then h_sector holding else a_sector existing),
                    a_symbol := (if \<not> truthy_str (a_symbol existing) \<and> truthy_str (h_symbol holding)
                                 then h_symbol holding else a_symbol existing) \<rparr>)
               holdingsMap
         | None \<Rightarrow>
             AList.update key
               \<lparr> a_name = h_name holding, a_symbol = h_symbol holding,
                 a_totalValue = holdingValueInFund,
                 a_totalPercentage = holdingPercentageInPortfolio,
                 a_funds = [\<lparr> fs_name = cf_fund mf, fs_percentage = h_percentage holding,
                              fs_value = holdingValueInFund \<rparr>],
                 a_pe = h_pe holding, a_marketCap = h_marketCap holding,
                 a_sector = h_sector holding \<rparr>
               holdingsMap)"

text \<open>
  \<open>resolve tradingsymbol fund\<close> is what \<open>await fetchFundPortfolio(mf.tradingsymbol, mf.fund)\<close>
  gives in this request; the calls of one request are for distinct fund names. A rejection
  is caught by the loop body's \<open>try/catch\<close>, which moves on to the next fund.
\<close>

type_synonym resolver = "string \<Rightarrow> string \<Rightarrow> FundPortfolio outcome"

definition fundWeight :: "rat \<Rightarrow> ConsolidatedFund \<Rightarrow> rat" where
  "fundWeight totalPortfolioValue mf =
     (if totalPortfolioValue > 0 then totalValue mf / totalPortfolioValue * 100 else 0)"

text \<open>The body of \<open>for (const mf of uniqueFunds)\<close>.\<close>

definition aggregate_fund :: "resolver \<Rightarrow> rat \<Rightarrow> (string \<times> AggregatedHolding) list
    \<Rightarrow> ConsolidatedFund \<Rightarrow> (string \<times> AggregatedHolding) list" where
  "aggregate_fund resolve totalPortfolioValue holdingsMap mf =
     (case resolve (cf_tradingsymbol mf) (cf_fund mf) of
        Rejects \<Rightarrow> holdingsMap
      | Resolves portfolio \<Rightarrow>
          if length (holdings portfolio) > 0
          then foldl (merge_holding mf (totalValue mf) (fundWeight totalPortfolioValue mf))
                 holdingsMap (holdings portfolio)
          else holdingsMap)"

record TopHoldings =
  th_holdings :: "AggregatedHolding list"
  totalHoldings :: nat
  totalPortfolioValue :: rat
  totalFunds :: nat

text \<open>
  \<open>Array.prototype.sort\<close> is stable; with the comparator \<open>b.totalPercentage -
  a.totalPercentage\<close> it is the stable sort by descending \<open>totalPercentage\<close>.
\<close>

definition top_holdings :: "resolver \<Rightarrow> MFHoldingIn list \<Rightarrow> TopHoldings" where
  "top_holdings resolve mfHoldings =
     (let tpv = snd (consolidate mfHoldings);
          holdingsMap = foldl (aggregate_fund resolve tpv) [] (uniqueFunds mfHoldings);
          allHoldings = sort_key (\<lambda>a. - a_totalPercentage a) (map snd holdingsMap)
      in \<lparr> th_holdings = allHoldings, totalHoldings = length allHoldings,
           totalPortfolioValue = tpv, totalFunds = length (uniqueFunds mfHoldings) \<rparr>)"

text \<open>
  The route: 401 without the access-token cookie, 500 when the body does not parse, 400
  without a holdings array.
\<close>

definition POST_top_holdings :: "resolver \<Rightarrow> string option \<Rightarrow> MFHoldingIn list body
    \<Rightarrow> TopHoldings response" where
  "POST_top_holdings resolve accessToken b =
     (if \<not> truthy_str accessToken then Status401
      else (case b of
              Malformed \<Rightarrow> Status500
            | Missing \<Rightarrow> Status400
            | Payload mfHoldings \<Rightarrow> Status200 (top_holdings resolve mfHoldings)))"

text \<open>
  Every constituent the loops merge, in the order they merge it, with the fund it comes from;
  and what it adds to a record.
\<close>

definition contributions :: "resolver \<Rightarrow> ConsolidatedFund list \<Rightarrow> (ConsolidatedFund \<times> FundHolding) list" where
  "contributions resolve funds =
     concat (map (\<lambda>mf. case resolve (cf_tradingsymbol mf) (cf_fund mf) of
                          Rejects \<Rightarrow> []
                        | Resolves portfolio \<Rightarrow> map (Pair mf) (holdings portfolio)) funds)"

definition c_key :: "ConsolidatedFund \<times> FundHolding \<Rightarrow> string" where
  "c_key c = dedup_key (h_name (snd c))"

definition c_fund :: "ConsolidatedFund \<times> FundHolding \<Rightarrow> string" where
  "c_fund c = cf_fund (fst c)"

definition c_pct :: "ConsolidatedFund \<times> FundHolding \<Rightarrow> rat" where
  "c_pct c = h_percentage (snd c)"

definition c_value :: "ConsolidatedFund \<times> FundHolding \<Rightarrow> rat" where
  "c_value c = h_percentage (snd c) / 100 * totalValue (fst c)"

definition c_weight :: "rat \<Rightarrow> ConsolidatedFund \<times> FundHolding \<Rightarrow> rat" where
  "c_weight tpv c = h_percentage (snd c) / 100 * fundWeight tpv (fst c)"

text \<open>The portfolio-wide weight returned for a constituent name: 0 when no record has its key.\<close>

definition weight_of :: "AggregatedHolding list \<Rightarrow> string \<Rightarrow> rat" where
  "weight_of res name =
     (case find (\<lambda>a. dedup_key (a_name a) = dedup_key name) res of
        Some a \<Rightarrow> a_totalPercentage a
      | None \<Rightarrow> 0)"

subsection \<open>What the loops maintain\<close>

text \<open>
  The state of the consolidation loop after the folios \<open>xs\<close>, and the state of the merge
  loops after the contributions \<open>cs\<close>: one record per key, holding the sums over the
  contributions with that key and one share per contributing fund.
\<close>

definition folio_value :: "MFHoldingIn \<Rightarrow> rat" where
  "folio_value mf = last_price mf * quantity mf"

definition consolidated_ok :: "MFHoldingIn list \<Rightarrow> (string \<times> ConsolidatedFund) list \<times> rat \<Rightarrow> bool" where
  "consolidated_ok xs st =
     (snd st = sum_list (map folio_value xs)
      \<and> distinct (map fst (fst st))
      \<and> (\<forall>f. map_of (fst st) f =
            (case find (\<lambda>mf. fund mf = f) xs of
               None \<Rightarrow> None
             | Some first \<Rightarrow>
                 Some \<lparr> cf_tradingsymbol = tradingsymbol first, cf_fund = f,
                        totalValue = sum_list (map folio_value (filter (\<lambda>mf. fund mf = f) xs)) \<rparr>)))"

definition shares_ok :: "FundShare list \<Rightarrow> (ConsolidatedFund \<times> FundHolding) list \<Rightarrow> bool" where
  "shares_ok fs ks =
     (distinct (map fs_name fs)
      \<and> set (map fs_name fs) = c_fund ` set ks
      \<and> list_all (\<lambda>e. fs_value e = sum_list (map c_value (filter (\<lambda>c. c_fund c = fs_name e) ks))
                      \<and> fs_percentage e = sum_list (map c_pct (filter (\<lambda>c. c_fund c = fs_name e) ks)))
           fs)"

definition record_ok :: "rat \<Rightarrow> string \<Rightarrow> AggregatedHolding \<Rightarrow> (ConsolidatedFund \<times> FundHolding) list \<Rightarrow> bool" where
  "record_ok tpv k a ks =
     (ks \<noteq> [] \<and> dedup_key (a_name a) = k
      \<and> a_totalValue a = sum_list (map c_value ks)
      \<and> a_totalPercentage a = sum_list (map (c_weight tpv) ks)
      \<and> shares_ok (a_funds a) ks)"

definition merged_ok :: "rat \<Rightarrow> (string \<times> AggregatedHolding) list \<Rightarrow> (ConsolidatedFund \<times> FundHolding) list \<Rightarrow> bool" where
  "merged_ok tpv m cs =
     (distinct (map fst m)
      \<and> (\<forall>k. case map_of m k of
                None \<Rightarrow> filter (\<lambda>c. c_key c = k) cs = []
              | Some a \<Rightarrow> record_ok tpv k a (filter (\<lambda>c. c_key c = k) cs)))"

definition merge1 :: "rat \<Rightarrow> (string \<times> AggregatedHolding) list \<Rightarrow> ConsolidatedFund \<times> FundHolding
    \<Rightarrow> (string \<times> AggregatedHolding) list" where
  "merge1 tpv m c = merge_holding (fst c) (totalValue (fst c)) (fundWeight tpv (fst c)) m (snd c)"

subsection \<open>Concrete inputs\<close>

definition mk_holding :: "string \<Rightarrow> rat \<Rightarrow> FundHolding" where
  "mk_holding n p = \<lparr> h_name = n, h_symbol = None, h_sector = None, h_percentage = p,
     h_value = None, h_quantity = None, h_pe = None, h_marketCap = None, h_priceChange = None \<rparr>"

definition table_resolver :: "(string \<times> FundHolding list) list \<Rightarrow> resolver" where
  "table_resolver t ts f =
     (case map_of t f of
        Some hs \<Rightarrow> Resolves (build f ts hs [] 0 ''Groww'')
      | None \<Rightarrow> Resolves (build f ts [] [] 0 ''No data available''))"

definition two_funds :: "MFHoldingIn list" where
  "two_funds =
     [\<lparr> tradingsymbol = ''INF1'', fund = ''Alpha'', last_price = 1000, quantity = 100 \<rparr>,
      \<lparr> tradingsymbol = ''INF2'', fund = ''Beta'', last_price = 3000, quantity = 100 \<rparr>]"

definition three_folios :: "MFHoldingIn list" where
  "three_folios =
     [\<lparr> tradingsymbol = ''INF1'', fund = ''Alpha'', last_price = 1000, quantity = 60 \<rparr>,
      \<lparr> tradingsymbol = ''INF2'', fund = ''Beta'', last_price = 3000, quantity = 100 \<rparr>,
      \<lparr> tradingsymbol = ''INF9'', fund = ''Alpha'', last_price = 1000, quantity = 40 \<rparr>]"

definition alpha :: ConsolidatedFund where
  "alpha = \<lparr> cf_tradingsymbol = ''INF1'', cf_fund = ''Alpha'', totalValue = 100000 \<rparr>"

definition beta_fund :: ConsolidatedFund where
  "beta_fund = \<lparr> cf_tradingsymbol = ''INF2'', cf_fund = ''Beta'', totalValue = 300000 \<rparr>"

definition full_alpha :: resolver where
  "full_alpha = table_resolver [(''Alpha'', [mk_holding ''Acme Ltd'' 40, mk_holding ''Bolt Inc'' 60])]"

definition partial_alpha :: resolver where
  "partial_alpha = table_resolver [(''Alpha'', [mk_holding ''Acme Ltd'' 40, mk_holding ''Bolt Inc'' 40])]"

definition acme_twice :: resolver where
  "acme_twice = table_resolver [(''Alpha'', [mk_holding '' Acme Ltd'' 40]),
                                (''Beta'', [mk_holding ''ACME LTD '' 10])]"

definition shared_acme :: resolver where
  "shared_acme = table_resolver [(''Alpha'', [mk_holding ''Acme Ltd'' 40, mk_holding ''Bolt Inc'' 60]),
                                 (''Beta'', [mk_holding ''ACME LTD '' 10])]"

text \<open>A resolver that answers by tradingsymbol alone.\<close>

definition symbol_resolver :: "(string \<times> FundHolding list) list \<Rightarrow> resolver" where
  "symbol_resolver t ts f =
     (case map_of t ts of
        Some hs \<Rightarrow> Resolves (build f ts hs [] 0 ''Groww'')
      | None \<Rightarrow> Resolves (build f ts [] [] 0 ''No data available''))"

definition first_symbol :: resolver where
  "first_symbol = symbol_resolver [(''INF1'', [mk_holding ''Acme Ltd'' 40, mk_holding ''Bolt Inc'' 60])]"

definition both_symbols :: resolver where
  "both_symbols = symbol_resolver [(''INF1'', [mk_holding ''Acme Ltd'' 40, mk_holding ''Bolt Inc'' 60]),
                                   (''INF9'', [mk_holding ''Zed Corp'' 100])]"

section \<open>Visibility scheduler (the fund detail modal)\<close>

text \<open>
  The modal's handlers run one at a time, each to its next \<open>await\<close>; the scheduler is the
  state they share and a step is one handler run. \<open>pendingIndices\<close> is a \<open>Set\<close> read in
  insertion order, kept as a duplicate-free list. A \<open>fetch\<close> that has been issued and whose
  continuation has not yet run is a \<open>call\<close>; it is outstanding on the network until it is
  aborted. \<open>debounce_set\<close> says that the timer held in \<open>batchTimeout\<close> has not fired, and
  \<open>followups\<close> counts the \<open>setTimeout(processBatch, 100)\<close> timers that have not fired.
\<close>

record call =
  c_id :: nat
  c_indices :: "nat list"
  c_stocks :: "string list"
  c_aborted :: bool

record scheduler =
  fundData :: "FundPortfolio option"
  isPEEnabled :: bool
  loadingIndices :: "nat set"
  pendingIndices :: "nat list"
  fetchedIndices :: "nat set"
  debounce_set :: bool
  followups :: nat
  isFetching :: bool
  abortController :: "nat option"
  calls :: "call list"
  next_id :: nat
  mounted :: bool
  persisted :: "FundPortfolio option"

definition opened :: scheduler where
  "opened =
     \<lparr> fundData = None, isPEEnabled = False, loadingIndices = {}, pendingIndices = [],
       fetchedIndices = {}, debounce_set = False, followups = 0, isFetching = False,
       abortController = None, calls = [], next_id = 0, mounted = True, persisted = None \<rparr>"

definition set_add :: "nat \<Rightarrow> nat list \<Rightarrow> nat list" where
  "set_add i xs = (if i \<in> set xs then xs else xs @ [i])"

definition outstanding :: "scheduler \<Rightarrow> call list" where
  "outstanding s = filter (\<lambda>c. \<not> c_aborted c) (calls s)"

text \<open>
  \<open>handleHoldingVisible\<close> and \<open>processBatch\<close> are closures: they read \<open>isPEEnabled\<close>,
  \<open>fundData\<close> and \<open>loadingIndices\<close> as captured at the render that created them, which a
  timer may outlive. The captured values are parameters (\<open>en\<close>, \<open>fd\<close>, \<open>li\<close>), so every
  staleness is covered; the refs are read from the state.
\<close>

definition has_pe :: "FundPortfolio option \<Rightarrow> nat \<Rightarrow> bool" where
  "has_pe fd i =
     (case fd of
        None \<Rightarrow> False
      | Some d \<Rightarrow> i < length (holdings d) \<and> truthy_num (h_pe (holdings d ! i)))"

definition handleHoldingVisible :: "bool \<Rightarrow> FundPortfolio option \<Rightarrow> nat \<Rightarrow> scheduler \<Rightarrow> scheduler" where
  "handleHoldingVisible en fd i s =
     (if \<not> en then s
      else if i \<in> fetchedIndices s then s
      else if has_pe fd i then s
      else s \<lparr> pendingIndices := set_add i (pendingIndices s), debounce_set := True \<rparr>)"

text \<open>\<open>processBatch\<close> up to its \<open>await fetch\<close>.\<close>

definition processBatch :: "FundPortfolio option \<Rightarrow> nat set \<Rightarrow> scheduler \<Rightarrow> scheduler" where
  "processBatch fd li s =
     (case fd of
        None \<Rightarrow> s
      | Some d \<Rightarrow>
          if isFetching s then s
          else
            (let indicesToFetch =
                   take 10 (filter (\<lambda>i. i \<notin> fetchedIndices s \<and> i \<notin> li) (pendingIndices s))
             in if indicesToFetch = [] then s
                else
                  (let stocks =
                         map (\<lambda>i. h_name (holdings d ! i))
                           (filter (\<lambda>i. i < length (holdings d)
                                         \<and> \<not> truthy_num (h_pe (holdings d ! i))) indicesToFetch)
                   in if stocks = []
                      then s \<lparr> fetchedIndices := fetchedIndices s \<union> set indicesToFetch \<rparr>
                      else s \<lparr> isFetching := True,
                               loadingIndices := loadingIndices s \<union> set indicesToFetch,
                               fetchedIndices := fetchedIndices s \<union> set indicesToFetch,
                               pendingIndices :=
                                 filter (\<lambda>i. i \<notin> set indicesToFetch) (pendingIndices s),
                               abortController := Some (next_id s),
                               calls := calls s @
                                 [\<lparr> c_id = next_id s, c_indices = indicesToFetch,
                                    c_stocks = stocks, c_aborted = False \<rparr>],
                               next_id := Suc (next_id s) \<rparr>)))"

text \<open>How a \<open>fetch\<close> ends: a response that is \<open>ok\<close> or not, a network error, or the abort.\<close>

datatype reply = ReplyOk "PEResult list" | ReplyNotOk | NetworkError | AbortError

fun find_index :: "('a \<Rightarrow> bool) \<Rightarrow> 'a list \<Rightarrow> nat option" where
  "find_index P [] = None"
| "find_index P (x # xs) = (if P x then Some 0 else map_option Suc (find_index P xs))"

definition apply_result :: "FundHolding list \<Rightarrow> PEResult \<Rightarrow> FundHolding list" where
  "apply_result updatedHoldings r =
     (case find_index (\<lambda>h. h_name h = r_name r) updatedHoldings of
        None \<Rightarrow> updatedHoldings
      | Some idx \<Rightarrow>
          updatedHoldings
            [idx := (updatedHoldings ! idx)
               \<lparr> h_pe := or_num (r_pe r) (h_pe (updatedHoldings ! idx)),
                 h_marketCap := or_str (r_marketCap r) (h_marketCap (updatedHoldings ! idx)),
                 h_symbol := or_str (r_symbol r) (h_symbol (updatedHoldings ! idx)) \<rparr>])"

text \<open>The \<open>try\<close> block after the \<open>await\<close>, the \<open>catch\<close> and the \<open>finally\<close>.\<close>

definition after_try :: "reply \<Rightarrow> call \<Rightarrow> scheduler \<Rightarrow> scheduler" where
  "after_try r c s =
     (case r of
        ReplyOk results \<Rightarrow>
          (case fundData s of
             None \<Rightarrow> s
           | Some prev \<Rightarrow>
               (let updatedData = prev \<lparr> holdings := foldl apply_result (holdings prev) results \<rparr>
                in s \<lparr> fundData := Some updatedData, persisted := Some updatedData \<rparr>))
      | ReplyNotOk \<Rightarrow> s
      | NetworkError \<Rightarrow> s \<lparr> fetchedIndices := fetchedIndices s - set (c_indices c) \<rparr>
      | AbortError \<Rightarrow> s)"

definition after_finally :: "call \<Rightarrow> scheduler \<Rightarrow> scheduler" where
  "after_finally c s =
     s \<lparr> loadingIndices := loadingIndices s - set (c_indices c),
         isFetching := False,
         abortController := None,
         followups := (if pendingIndices s \<noteq> [] then Suc (followups s) else followups s),
         calls := filter (\<lambda>c'. c_id c' \<noteq> c_id c) (calls s) \<rparr>"

definition enablePELoading :: "scheduler \<Rightarrow> scheduler" where
  "enablePELoading s = s \<lparr> pendingIndices := [], fetchedIndices := {}, isPEEnabled := True \<rparr>"

text \<open>The cleanup of the unmount effect; aborting marks the call the controller belongs to.\<close>

definition cleanup :: "scheduler \<Rightarrow> scheduler" where
  "cleanup s =
     s \<lparr> debounce_set := False,
         calls := map (\<lambda>c. if abortController s = Some (c_id c) then c \<lparr> c_aborted := True \<rparr> else c)
                    (calls s),
         pendingIndices := [],
         isFetching := False,
         mounted := False \<rparr>"

text \<open>
  The events. Rows report visibility and the user acts only while the modal is mounted; a
  timer fires only if it is set; a call ends with \<open>AbortError\<close> exactly when it was aborted.
  An event that cannot happen in a state has no successor.
\<close>

datatype happening =
    Visible nat bool "FundPortfolio option"
  | DebounceFires "FundPortfolio option" "nat set"
  | FollowupFires "FundPortfolio option" "nat set"
  | Completes nat reply
  | DataLoaded "FundPortfolio option" bool
  | EnablePE
  | Unmount

fun step :: "happening \<Rightarrow> scheduler \<Rightarrow> scheduler option" where
  "step (Visible i en fd) s = (if mounted s then Some (handleHoldingVisible en fd i s) else None)"
| "step (DebounceFires fd li) s =
     (if debounce_set s then Some (processBatch fd li (s \<lparr> debounce_set := False \<rparr>)) else None)"
| "step (FollowupFires fd li) s =
     (if followups s > 0 then Some (processBatch fd li (s \<lparr> followups := followups s - 1 \<rparr>))
      else None)"
| "step (Completes n r) s =
     (case find (\<lambda>c. c_id c = n) (calls s) of
        None \<Rightarrow> None
      | Some c \<Rightarrow>
          if (r = AbortError) = c_aborted c then Some (after_finally c (after_try r c s))
          else None)"
| "step (DataLoaded fd en) s =
     (if mounted s then Some (s \<lparr> fundData := fd, isPEEnabled := en \<rparr>) else None)"
| "step EnablePE s = (if mounted s then Some (enablePELoading s) else None)"
| "step Unmount s = (if mounted s then Some (cleanup s) else None)"

fun run :: "happening list \<Rightarrow> scheduler \<Rightarrow> scheduler option" where
  "run [] s = Some s"
| "run (e # es) s = (case step e s of None \<Rightarrow> None | Some s' \<Rightarrow> run es s')"

text \<open>What every reachable state satisfies.\<close>

definition single_flight_inv :: "scheduler \<Rightarrow> bool" where
  "single_flight_inv s =
     (length (calls s) \<le> 1
      \<and> (if mounted s
         then list_all (\<lambda>c. \<not> c_aborted c \<and> abortController s = Some (c_id c)) (calls s)
              \<and> (calls s = [] \<or> isFetching s)
         else pendingIndices s = [] \<and> list_all c_aborted (calls s)))"

subsection \<open>Concrete inputs\<close>

definition six_rows :: FundPortfolio where
  "six_rows = build ''Fund'' ''INF1''
     [mk_holding ''r0'' 10, mk_holding ''r1'' 10, mk_holding ''r2'' 10, mk_holding ''r3'' 10,
      mk_holding ''r4'' 10, mk_holding ''r5'' 10] [] 0 ''Groww''"

definition burst :: "happening list" where
  "burst =
     [DataLoaded (Some six_rows) False, EnablePE,
      Visible 0 True (Some six_rows), Visible 1 True (Some six_rows),
      Visible 2 True (Some six_rows), Visible 3 True (Some six_rows),
      Visible 4 True (Some six_rows), DebounceFires (Some six_rows) {},
      Visible 5 True (Some six_rows)]"

section \<open>Properties of the resolver and its cache\<close>

lemma try_scrapers_first:
  "k < length ss \<Longrightarrow> accepted (sc_fn (ss ! k) w i n) = Some p
   \<Longrightarrow> \<forall>j<k. accepted (sc_fn (ss ! j) w i n) = None
   \<Longrightarrow> try_scrapers ss w i n = (Some p, map (\<lambda>s. CallScraper (sc_name s) i n) (take (Suc k) ss))"
proof (induction ss arbitrary: k)
  case Nil
  then show ?case by simp
next
  case (Cons s ss)
  show ?case
  proof (cases k)
    case 0
    with Cons.prems show ?thesis by simp
  next
    case (Suc k')
    from Cons.prems Suc have a: "accepted (sc_fn s w i n) = None" by auto
    from Cons.prems Suc have b: "k' < length ss" "accepted (sc_fn (ss ! k') w i n) = Some p" by auto
    from Cons.prems Suc have c: "\<forall>j<k'. accepted (sc_fn (ss ! j) w i n) = None" by auto
    from Cons.IH[OF b c] a Suc show ?thesis by simp
  qed
qed

lemma try_scrapers_none:
  "\<forall>s\<in>set ss. accepted (sc_fn s w i n) = None
   \<Longrightarrow> try_scrapers ss w i n = (None, map (\<lambda>s. CallScraper (sc_name s) i n) ss)"
  by (induction ss) auto

lemma adapter_source:
  "k < length SCRAPERS \<Longrightarrow> accepted (sc_fn (SCRAPERS ! k) w i n) = Some p \<Longrightarrow>
   source p = [''Groww'', ''Tickertape'', ''Moneycontrol'', ''Value Research'', ''ET Money''] ! k"
  apply (simp add: SCRAPERS_def less_Suc_eq numeral_eq_Suc)
  apply (elim disjE)
  apply (auto simp: accepted_def scrapeGroww_def scrapeTickertape_def scrapeMoneycontrol_def scrapeValueResearch_def scrapeETMoney_def build_def Let_def split: option.splits if_splits)
  done

text \<open>
  Claim C1. On a cache miss the resolver invokes the adapters in the order of \<open>SCRAPERS\<close>
  and stops at the first one whose answer has at least one holding: the returned
  portfolio's \<open>source\<close> is the label that adapter stamps on its result, and the trace holds
  the registry lookup followed by the adapters up to and including the winner, none after it.
\<close>

theorem resolver_first_success_wins:
  assumes miss: "fst (getCachedPortfolio c t0 i) = None"
    and k: "k < length SCRAPERS"
    and win: "accepted (sc_fn (SCRAPERS ! k) w i n) = Some p"
    and before: "\<forall>j<k. accepted (sc_fn (SCRAPERS ! j) w i n) = None"
  shows "source (returned (fetchFundPortfolio w t0 t1 c i n)) = source p
       \<and> source p = [''Groww'', ''Tickertape'', ''Moneycontrol'', ''Value Research'', ''ET Money''] ! k
       \<and> trace (fetchFundPortfolio w t0 t1 c i n)
           = CallMFAPI i # map (\<lambda>s. CallScraper (sc_name s) i n) (take (Suc k) SCRAPERS)"
proof -
  have t: "try_scrapers SCRAPERS w i n
             = (Some p, map (\<lambda>s. CallScraper (sc_name s) i n) (take (Suc k) SCRAPERS))"
    by (rule try_scrapers_first[OF k win before])
  obtain c' where g: "getCachedPortfolio c t0 i = (None, c')"
    using miss by (cases "getCachedPortfolio c t0 i") auto
  show ?thesis
    using adapter_source[OF k win]
    by (simp add: fetchFundPortfolio_def g t Let_def)
qed

text \<open>
  Groww answers nothing and Tickertape answers: the result is labelled Tickertape and
  Moneycontrol, Value Research and ET Money are never invoked.
\<close>

theorem resolver_first_success_wins_witness:
  "source (returned (fetchFundPortfolio (ex_world Tickertape) 0 1 Map.empty ''INF1'' ''Fund'')) = ''Tickertape''
   \<and> trace (fetchFundPortfolio (ex_world Tickertape) 0 1 Map.empty ''INF1'' ''Fund'')
       = [CallMFAPI ''INF1'', CallScraper ''Groww'' ''INF1'' ''Fund'', CallScraper ''Tickertape'' ''INF1'' ''Fund'']"
proof -
  have miss: "fst (getCachedPortfolio Map.empty 0 ''INF1'') = None"
    by (simp add: getCachedPortfolio_def)
  have k: "(1::nat) < length SCRAPERS" by (simp add: SCRAPERS_def)
  have win: "accepted (sc_fn (SCRAPERS ! 1) (ex_world Tickertape) ''INF1'' ''Fund'')
      = Some (build ''Provider Fund'' ''INF1'' [ex_holding] [] 5 ''Tickertape'')"
    by (simp add: SCRAPERS_def accepted_def scrapeTickertape_def ex_world_def ex_page_def ex_holding_def or_name_def build_def)
  have before: "\<forall>j<1. accepted (sc_fn (SCRAPERS ! j) (ex_world Tickertape) ''INF1'' ''Fund'') = None"
    by (simp add: SCRAPERS_def accepted_def scrapeGroww_def ex_world_def)
  show ?thesis
    using resolver_first_success_wins[OF miss k win before, of 1]
    by (simp add: SCRAPERS_def build_def)
qed

lemma dead_world_fails: "\<forall>s\<in>set SCRAPERS. accepted (sc_fn s dead_world i n) = None"
  by (simp add: SCRAPERS_def accepted_def dead_world_def scrapeGroww_def scrapeTickertape_def
      scrapeMoneycontrol_def scrapeValueResearch_def scrapeETMoney_def)

text \<open>
  Claim C2 as stated says that a failed call leaves the cache entry of the identifier
  unchanged. With an expired entry in the cache and every adapter failing, the entry is gone
  after the call: the initial lookup evicted it.
\<close>

theorem failed_call_evicts_counterexample:
  "fst (getCachedPortfolio stale_cache 86400001 ''INF1'') = None
   \<and> fst (try_scrapers SCRAPERS dead_world ''INF1'' ''Fund'') = None
   \<and> stale_cache ''INF1'' \<noteq> None
   \<and> cache_after (fetchFundPortfolio dead_world 86400001 86400002 stale_cache ''INF1'' ''Fund'') ''INF1''
       = None"
proof -
  have g: "getCachedPortfolio stale_cache 86400001 ''INF1'' = (None, stale_cache(''INF1'' := None))"
    by (simp add: getCachedPortfolio_def stale_cache_def CACHE_TTL_def)
  have t: "try_scrapers SCRAPERS dead_world ''INF1'' ''Fund''
      = (None, map (\<lambda>s. CallScraper (sc_name s) ''INF1'' ''Fund'') SCRAPERS)"
    by (rule try_scrapers_none[OF dead_world_fails])
  have r: "cache_after (fetchFundPortfolio dead_world 86400001 86400002 stale_cache ''INF1'' ''Fund'')
      = stale_cache(''INF1'' := None)"
    by (simp add: fetchFundPortfolio_def g t Let_def)
  have s: "stale_cache ''INF1'' \<noteq> None" by (simp add: stale_cache_def)
  show ?thesis
    using s by (simp add: g r t)
qed

text \<open>
  Claim C2, amended. On a cache miss where every adapter rejects, returns nothing or returns
  zero holdings, the resolver returns the empty portfolio with the fixed error text and the
  sentinel source, and writes nothing: the cache afterwards is the cache before without an
  entry for the identifier (an expired one having been evicted by the lookup), so it is
  unchanged when the identifier had no entry.
\<close>

theorem negative_result_not_cached:
  assumes miss: "fst (getCachedPortfolio c t0 i) = None"
    and fail: "\<forall>s\<in>set SCRAPERS. accepted (sc_fn s w i n) = None"
  shows "holdings (returned (fetchFundPortfolio w t0 t1 c i n)) = []
       \<and> sectorAllocation (returned (fetchFundPortfolio w t0 t1 c i n)) = []
       \<and> assetAllocation (returned (fetchFundPortfolio w t0 t1 c i n)) = []
       \<and> error (returned (fetchFundPortfolio w t0 t1 c i n))
           = Some ''Failed to fetch holdings from all sources''
       \<and> source (returned (fetchFundPortfolio w t0 t1 c i n)) = ''No data available''
       \<and> cache_after (fetchFundPortfolio w t0 t1 c i n) = c(i := None)
       \<and> (c i = None \<longrightarrow> cache_after (fetchFundPortfolio w t0 t1 c i n) = c)"
proof -
  have g: "getCachedPortfolio c t0 i = (None, c(i := None))"
    using miss by (auto simp: getCachedPortfolio_def split: option.splits if_splits)
  have t: "try_scrapers SCRAPERS w i n = (None, map (\<lambda>s. CallScraper (sc_name s) i n) SCRAPERS)"
    by (rule try_scrapers_none[OF fail])
  show ?thesis
    by (auto simp add: fetchFundPortfolio_def g t Let_def)
qed

text \<open>
  The amended claim at an expired entry and at an empty cache.
\<close>

theorem negative_result_not_cached_witness:
  "holdings (returned (fetchFundPortfolio dead_world 86400001 86400002 stale_cache ''INF1'' ''Fund'')) = []
   \<and> source (returned (fetchFundPortfolio dead_world 86400001 86400002 stale_cache ''INF1'' ''Fund''))
       = ''No data available''
   \<and> cache_after (fetchFundPortfolio dead_world 86400001 86400002 stale_cache ''INF1'' ''Fund'')
       = Map.empty
   \<and> cache_after (fetchFundPortfolio dead_world 0 1 Map.empty ''INF1'' ''Fund'') = Map.empty"
proof -
  have m1: "fst (getCachedPortfolio stale_cache 86400001 ''INF1'') = None"
    by (simp add: getCachedPortfolio_def stale_cache_def CACHE_TTL_def)
  have m2: "fst (getCachedPortfolio Map.empty 0 ''INF1'') = None"
    by (simp add: getCachedPortfolio_def)
  show ?thesis
    using negative_result_not_cached[where ?t1.0 = 86400002, OF m1 dead_world_fails]
          negative_result_not_cached[where ?t1.0 = 1, OF m2 dead_world_fails]
    by (simp add: stale_cache_def)
qed

lemma fetch_hit:
  "now - tp \<le> CACHE_TTL \<Longrightarrow>
   fetchFundPortfolio w now t1 (cachePortfolio c tp i d) i n
     = \<lparr> returned = d, cache_after = cachePortfolio c tp i d, trace = [] \<rparr>"
  by (simp add: fetchFundPortfolio_def getCachedPortfolio_def cachePortfolio_def)

lemma fetch_success_cached:
  assumes miss: "fst (getCachedPortfolio c t0 i) = None"
    and ok: "holdings (returned (fetchFundPortfolio w t0 tp c i n)) \<noteq> []"
  shows "cache_after (fetchFundPortfolio w t0 tp c i n)
           = cachePortfolio (c(i := None)) tp i (returned (fetchFundPortfolio w t0 tp c i n))"
proof -
  have g: "getCachedPortfolio c t0 i = (None, c(i := None))"
    using miss by (auto simp: getCachedPortfolio_def split: option.splits if_splits)
  obtain r tr where t: "try_scrapers SCRAPERS w i n = (r, tr)"
    by (cases "try_scrapers SCRAPERS w i n") auto
  show ?thesis
  proof (cases r)
    case None
    with ok show ?thesis by (simp add: fetchFundPortfolio_def g t Let_def)
  next
    case (Some p)
    then show ?thesis by (simp add: fetchFundPortfolio_def g t Let_def)
  qed
qed

text \<open>
  Claim C3. A get after a put returns the value put exactly when at most \<open>CACHE_TTL\<close>
  milliseconds have passed since the put; a get on an expired entry returns what a miss
  returns and leaves the cache without the entry; a resolution that finds a fresh entry
  returns it, leaves the cache as it was and performs no registry lookup and no adapter call;
  so does a second resolution within the TTL of a first one that succeeded.
\<close>

theorem timed_cache_hit_within_ttl:
  "getCachedPortfolio (cachePortfolio c tp i d) now i
     = (if now - tp \<le> CACHE_TTL then (Some d, cachePortfolio c tp i d)
        else (None, (cachePortfolio c tp i d)(i := None)))
   \<and> (\<forall>e. c i = Some e \<and> now - timestamp e > CACHE_TTL \<longrightarrow>
         getCachedPortfolio c now i = (None, c(i := None))
         \<and> getCachedPortfolio c now i = getCachedPortfolio (c(i := None)) now i)
   \<and> (now - tp \<le> CACHE_TTL \<longrightarrow>
         fetchFundPortfolio w now t1 (cachePortfolio c tp i d) i n
           = \<lparr> returned = d, cache_after = cachePortfolio c tp i d, trace = [] \<rparr>)
   \<and> (fst (getCachedPortfolio c t0 i) = None
        \<and> holdings (returned (fetchFundPortfolio w t0 tp c i n)) \<noteq> []
        \<and> now - tp \<le> CACHE_TTL \<longrightarrow>
         fetchFundPortfolio w' now t1 (cache_after (fetchFundPortfolio w t0 tp c i n)) i n'
           = \<lparr> returned = returned (fetchFundPortfolio w t0 tp c i n),
               cache_after = cache_after (fetchFundPortfolio w t0 tp c i n), trace = [] \<rparr>)"
proof (intro conjI allI impI)
  show "getCachedPortfolio (cachePortfolio c tp i d) now i
     = (if now - tp \<le> CACHE_TTL then (Some d, cachePortfolio c tp i d)
        else (None, (cachePortfolio c tp i d)(i := None)))"
    by (simp add: getCachedPortfolio_def cachePortfolio_def)
next
  fix e assume "c i = Some e \<and> now - timestamp e > CACHE_TTL"
  then show "getCachedPortfolio c now i = (None, c(i := None))"
    by (simp add: getCachedPortfolio_def)
next
  fix e assume "c i = Some e \<and> now - timestamp e > CACHE_TTL"
  then show "getCachedPortfolio c now i = getCachedPortfolio (c(i := None)) now i"
    by (simp add: getCachedPortfolio_def)
next
  assume "now - tp \<le> CACHE_TTL"
  then show "fetchFundPortfolio w now t1 (cachePortfolio c tp i d) i n
           = \<lparr> returned = d, cache_after = cachePortfolio c tp i d, trace = [] \<rparr>"
    by (rule fetch_hit)
next
  assume a: "fst (getCachedPortfolio c t0 i) = None
        \<and> holdings (returned (fetchFundPortfolio w t0 tp c i n)) \<noteq> []
        \<and> now - tp \<le> CACHE_TTL"
  then have e: "cache_after (fetchFundPortfolio w t0 tp c i n)
           = cachePortfolio (c(i := None)) tp i (returned (fetchFundPortfolio w t0 tp c i n))"
    by (simp add: fetch_success_cached)
  from a have "now - tp \<le> CACHE_TTL" by simp
  then show "fetchFundPortfolio w' now t1 (cache_after (fetchFundPortfolio w t0 tp c i n)) i n'
           = \<lparr> returned = returned (fetchFundPortfolio w t0 tp c i n),
               cache_after = cache_after (fetchFundPortfolio w t0 tp c i n), trace = [] \<rparr>"
    unfolding e by (rule fetch_hit)
qed

lemma ex_groww_page:
  "scrapeGroww (ex_world Groww) ''INF1'' ''Fund''
     = Some ((build ''Provider Fund'' ''INF1'' [ex_holding] [] 5 ''Groww'')
               \<lparr> category := Some ''Large Cap'', fundHouse := Some ''Provider House'',
                 nav := Some 10 \<rparr>)"
  by (simp add: scrapeGroww_def ex_world_def ex_page_def ex_holding_def or_name_def)

lemma ex_groww_try:
  "try_scrapers SCRAPERS (ex_world Groww) ''INF1'' ''Fund''
     = (Some ((build ''Provider Fund'' ''INF1'' [ex_holding] [] 5 ''Groww'')
               \<lparr> category := Some ''Large Cap'', fundHouse := Some ''Provider House'',
                 nav := Some 10 \<rparr>), [CallScraper ''Groww'' ''INF1'' ''Fund''])"
  by (simp add: SCRAPERS_def accepted_def ex_groww_page build_def)

lemma ex_registry:
  "fetchFromMFAPI (ex_world p) ''INF1''
     = Some \<lparr> i_fundName = ''Registry Fund'', i_isin = ''INF1'', i_schemeCode = ''100'',
              i_category = ''Equity'', i_fundHouse = ''Registry House'', i_nav = Some 12,
              i_navDate = ''01-01-2025'', i_source = ''MFAPI'' \<rparr>"
  by (simp add: fetchFromMFAPI_def getSchemeCode_def ex_world_def or_name_def)

text \<open>
  An expired entry is evicted, a successful resolution caches its result, and a resolution
  exactly 24 hours later is served from the cache with an empty trace.
\<close>

theorem timed_cache_hit_within_ttl_witness:
  "getCachedPortfolio stale_cache 172800002 ''INF1'' = (None, Map.empty)
   \<and> fetchFundPortfolio dead_world 172800002 172800003
        (cache_after (fetchFundPortfolio (ex_world Groww) 86400001 86400002 stale_cache ''INF1'' ''Fund''))
        ''INF1'' ''Other''
      = \<lparr> returned = returned (fetchFundPortfolio (ex_world Groww) 86400001 86400002 stale_cache ''INF1'' ''Fund''),
          cache_after = cache_after (fetchFundPortfolio (ex_world Groww) 86400001 86400002 stale_cache ''INF1'' ''Fund''),
          trace = [] \<rparr>"
proof -
  let ?e = "\<lparr> data = build ''Old'' ''INF1'' [ex_holding] [] 0 ''Groww'', timestamp = 0 \<rparr>"
  have g: "getCachedPortfolio stale_cache 86400001 ''INF1'' = (None, stale_cache(''INF1'' := None))"
    by (simp add: getCachedPortfolio_def stale_cache_def CACHE_TTL_def)
  have h2: "stale_cache ''INF1'' = Some ?e \<and> 172800002 - timestamp ?e > CACHE_TTL"
    by (simp add: stale_cache_def CACHE_TTL_def)
  have h4: "fst (getCachedPortfolio stale_cache 86400001 ''INF1'') = None
        \<and> holdings (returned (fetchFundPortfolio (ex_world Groww) 86400001 86400002 stale_cache ''INF1'' ''Fund'')) \<noteq> []
        \<and> (172800002::int) - 86400002 \<le> CACHE_TTL"
    by (simp add: g fetchFundPortfolio_def ex_groww_try Let_def build_def CACHE_TTL_def)
  note t = timed_cache_hit_within_ttl[where c = stale_cache and i = "''INF1''" and now = 172800002
      and tp = 86400002 and ?t0.0 = 86400001 and w = "ex_world Groww" and n = "''Fund''"
      and w' = dead_world and n' = "''Other''" and ?t1.0 = 172800003]
  from t h2 have a: "getCachedPortfolio stale_cache 172800002 ''INF1'' = (None, stale_cache(''INF1'' := None))"
    by blast
  have m: "stale_cache(''INF1'' := None) = Map.empty" by (simp add: stale_cache_def)
  from t h4 have b: "fetchFundPortfolio dead_world 172800002 172800003
        (cache_after (fetchFundPortfolio (ex_world Groww) 86400001 86400002 stale_cache ''INF1'' ''Fund''))
        ''INF1'' ''Other''
      = \<lparr> returned = returned (fetchFundPortfolio (ex_world Groww) 86400001 86400002 stale_cache ''INF1'' ''Fund''),
          cache_after = cache_after (fetchFundPortfolio (ex_world Groww) 86400001 86400002 stale_cache ''INF1'' ''Fund''),
          trace = [] \<rparr>"
    by blast
  from a b m show ?thesis by simp
qed

text \<open>
  Claim C4 as stated says that the provider's value wins where both the adapter and the
  registry supply a field. Here both supply all four fields and the result carries the
  registry's value in each.
\<close>

theorem overlay_provider_first_counterexample:
  "map_option fundName (scrapeGroww (ex_world Groww) ''INF1'' ''Fund'') = Some ''Provider Fund''
   \<and> map_option category (scrapeGroww (ex_world Groww) ''INF1'' ''Fund'') = Some (Some ''Large Cap'')
   \<and> map_option nav (scrapeGroww (ex_world Groww) ''INF1'' ''Fund'') = Some (Some 10)
   \<and> map_option fundHouse (scrapeGroww (ex_world Groww) ''INF1'' ''Fund'') = Some (Some ''Provider House'')
   \<and> fundName (returned (fetchFundPortfolio (ex_world Groww) 0 1 Map.empty ''INF1'' ''Fund'')) = ''Registry Fund''
   \<and> category (returned (fetchFundPortfolio (ex_world Groww) 0 1 Map.empty ''INF1'' ''Fund'')) = Some ''Equity''
   \<and> nav (returned (fetchFundPortfolio (ex_world Groww) 0 1 Map.empty ''INF1'' ''Fund'')) = Some 12
   \<and> fundHouse (returned (fetchFundPortfolio (ex_world Groww) 0 1 Map.empty ''INF1'' ''Fund'')) = Some ''Registry House''"
  by (simp add: ex_groww_page fetchFundPortfolio_def getCachedPortfolio_def ex_groww_try ex_registry
      Let_def build_def or_name_def or_str_def or_num_def truthy_str_def truthy_num_def)

text \<open>
  Claim C4, amended. In the overlay the registry wins: a field that the registry supplies
  (a non-empty string, a non-zero number) carries the registry's value, for fund name,
  category, NAV and fund house alike; fund name, category and NAV carry the winning
  adapter's value when the registry leaves them unset. What the fund house is when the
  registry has none is not part of the statement.
\<close>

theorem overlay_registry_first:
  assumes miss: "fst (getCachedPortfolio c t0 i) = None"
    and win: "try_scrapers SCRAPERS w i n = (Some p, tr)"
  shows "fundName (returned (fetchFundPortfolio w t0 t1 c i n))
           = (case fetchFromMFAPI w i of
                Some x \<Rightarrow> if i_fundName x \<noteq> [] then i_fundName x
                          else if fundName p \<noteq> [] then fundName p else n
              | None \<Rightarrow> if fundName p \<noteq> [] then fundName p else n)
       \<and> category (returned (fetchFundPortfolio w t0 t1 c i n))
           = (case fetchFromMFAPI w i of
                Some x \<Rightarrow> if i_category x \<noteq> [] then Some (i_category x) else category p
              | None \<Rightarrow> category p)
       \<and> nav (returned (fetchFundPortfolio w t0 t1 c i n))
           = (case fetchFromMFAPI w i of
                Some x \<Rightarrow> (case i_nav x of
                             Some v \<Rightarrow> if v \<noteq> 0 then Some v else nav p
                           | None \<Rightarrow> nav p)
              | None \<Rightarrow> nav p)
       \<and> (\<forall>x. fetchFromMFAPI w i = Some x \<and> i_fundHouse x \<noteq> [] \<longrightarrow>
              fundHouse (returned (fetchFundPortfolio w t0 t1 c i n)) = Some (i_fundHouse x))"
proof -
  obtain c' where g: "getCachedPortfolio c t0 i = (None, c')"
    using miss by (cases "getCachedPortfolio c t0 i") auto
  show ?thesis
    by (simp add: fetchFundPortfolio_def g win Let_def or_name_def or_str_def or_num_def
        truthy_str_def truthy_num_def split: option.splits)
qed

text \<open>
  The amended claim where both the registry and Groww supply every field.
\<close>

theorem overlay_registry_first_witness:
  "fundName (returned (fetchFundPortfolio (ex_world Groww) 0 1 Map.empty ''INF1'' ''Fund'')) = ''Registry Fund''
   \<and> category (returned (fetchFundPortfolio (ex_world Groww) 0 1 Map.empty ''INF1'' ''Fund'')) = Some ''Equity''
   \<and> nav (returned (fetchFundPortfolio (ex_world Groww) 0 1 Map.empty ''INF1'' ''Fund'')) = Some 12
   \<and> fundHouse (returned (fetchFundPortfolio (ex_world Groww) 0 1 Map.empty ''INF1'' ''Fund'')) = Some ''Registry House''"
proof -
  have miss: "fst (getCachedPortfolio Map.empty 0 ''INF1'') = None"
    by (simp add: getCachedPortfolio_def)
  show ?thesis
    using overlay_registry_first[OF miss ex_groww_try, where ?t1.0 = 1]
    by (simp add: ex_registry)
qed

section \<open>Properties of ratio enrichment\<close>

lemma view_after_get:
  "fst (getCachedPE (snd (getCachedPE c now s)) now s') = fst (getCachedPE c now s')"
  by (auto simp: getCachedPE_def Let_def split: option.splits)

lemma check_cache_view:
  "fst (check_cache c now ss) = map (\<lambda>s. (s, fst (getCachedPE c now s))) ss"
proof (induction ss arbitrary: c)
  case Nil
  then show ?case by simp
next
  case (Cons s ss)
  obtain e c' where g: "getCachedPE c now s = (e, c')" by (cases "getCachedPE c now s") auto
  have v: "\<And>s'. fst (getCachedPE c' now s') = fst (getCachedPE c now s')"
    using view_after_get[of c now s] g by simp
  obtain es c'' where r: "check_cache c' now ss = (es, c'')" by (cases "check_cache c' now ss") auto
  from Cons.IH[of c'] r have "es = map (\<lambda>s. (s, fst (getCachedPE c' now s))) ss" by simp
  with v have "es = map (\<lambda>s. (s, fst (getCachedPE c now s))) ss" by simp
  with g r show ?case by simp
qed

lemma settle_length: "length (fst (settle sources done_at j c cs)) = length cs"
  by (induction sources done_at j c cs rule: settle.induct) (auto split: prod.splits)

lemma settle_nth:
  "i < length cs \<Longrightarrow> fst (settle sources done_at j c cs) ! i = result_of sources (j + i) (cs ! i)"
proof (induction sources done_at j c cs arbitrary: i rule: settle.induct)
  case (1 sources done_at j c)
  then show ?case by simp
next
  case (2 sources done_at j c stockName cached rest)
  then show ?case
    by (cases i) (auto simp: result_of_def split: prod.splits)
next
  case (3 sources done_at j c stockName rest)
  then show ?case
    by (cases i) (auto simp: result_of_def Let_def split: prod.splits)
qed

lemma fetchStockPE_effects:
  "e \<in> set (snd (fetchStockPE src j s)) \<Longrightarrow> e = AskScreener j s \<or> e = AskNSE j s"
  by (auto simp: fetchStockPE_def symbol_only_def Let_def split: option.splits if_splits prod.splits)

lemma settle_effects:
  "e \<in> set (snd (snd (settle sources done_at j c cs))) \<Longrightarrow>
   \<exists>i<length cs. e = AskScreener (j + i) (fst (cs ! i)) \<or> e = AskNSE (j + i) (fst (cs ! i))"
proof (induction sources done_at j c cs rule: settle.induct)
  case (1 sources done_at j c)
  then show ?case by simp
next
  case (2 sources done_at j c stockName cached rest)
  then have "e \<in> set (snd (snd (settle sources done_at (Suc j) c rest)))"
    by (auto split: prod.splits)
  from 2(1)[OF this] obtain i where "i < length rest"
    "e = AskScreener (Suc j + i) (fst (rest ! i)) \<or> e = AskNSE (Suc j + i) (fst (rest ! i))" by blast
  then show ?case by (intro exI[of _ "Suc i"]) simp
next
  case (3 sources done_at j c stockName rest)
  obtain d evs where f: "fetchStockPE (sources j) j stockName = (d, evs)"
    by (cases "fetchStockPE (sources j) j stockName") auto
  from 3(2) f have "e \<in> set evs \<or> e \<in> set (snd (snd (settle sources done_at (Suc j) (cachePE c (done_at j) stockName d) rest)))"
    by (auto split: prod.splits)
  then show ?case
  proof
    assume "e \<in> set evs"
    with f fetchStockPE_effects[of e "sources j" j stockName]
    have "e = AskScreener j stockName \<or> e = AskNSE j stockName" by simp
    then show ?thesis by (intro exI[of _ 0]) simp
  next
    assume a: "e \<in> set (snd (snd (settle sources done_at (Suc j) (cachePE c (done_at j) stockName d) rest)))"
    from 3(1)[OF f[symmetric] a] obtain i where "i < length rest"
      "e = AskScreener (Suc j + i) (fst (rest ! i)) \<or> e = AskNSE (Suc j + i) (fst (rest ! i))" by blast
    then show ?thesis by (intro exI[of _ "Suc i"]) simp
  qed
qed

text \<open>
  Claim C5. A POST whose body carries a names array is answered with status 200 and one result
  per name among the first ten, in order and carrying that name. Each result is that of its
  own name alone: the fields of the cache entry when the name is cached, and otherwise the
  fields its own lookup found, whatever the other names' lookups did; so a name that missed
  the cache and whose lookup found nothing has no ratio, no capitalisation band and no
  ticker, beside results that keep theirs. Every provider call made is for a position below
  ten.
\<close>

theorem batch_capped_partial:
  "\<exists>results.
      response (POST_batch sources now done_at c (Payload names)) = Status200 results
    \<and> length results = min 10 (length names)
    \<and> map r_name results = take 10 names
    \<and> (\<forall>j<length results.
          results ! j =
            (case fst (getCachedPE c now (names ! j)) of
               Some cached \<Rightarrow>
                 \<lparr> r_name = names ! j, r_pe = ce_pe cached, r_marketCap = ce_marketCap cached,
                   r_symbol = ce_symbol cached \<rparr>
             | None \<Rightarrow>
                 \<lparr> r_name = names ! j,
                   r_pe = d_pe (fst (fetchStockPE (sources j) j (names ! j))),
                   r_marketCap = d_marketCap (fst (fetchStockPE (sources j) j (names ! j))),
                   r_symbol = d_symbol (fst (fetchStockPE (sources j) j (names ! j))) \<rparr>))
    \<and> (\<forall>j<length results.
          fst (getCachedPE c now (names ! j)) = None
          \<and> fst (fetchStockPE (sources j) j (names ! j)) = no_data
          \<longrightarrow> results ! j = \<lparr> r_name = names ! j, r_pe = None, r_marketCap = None, r_symbol = None \<rparr>)
    \<and> (\<forall>e\<in>set (effects (POST_batch sources now done_at c (Payload names))).
          \<exists>j<min 10 (length names). e = AskScreener j (names ! j) \<or> e = AskNSE j (names ! j))"
proof -
  let ?batch = "take 10 names"
  obtain checked c' where ch: "check_cache c now ?batch = (checked, c')"
    by (cases "check_cache c now ?batch") auto
  obtain results c'' evs where st: "settle sources done_at 0 c' checked = (results, c'', evs)"
    by (cases "settle sources done_at 0 c' checked") auto
  have checked: "checked = map (\<lambda>s. (s, fst (getCachedPE c now s))) ?batch"
    using check_cache_view[of c now ?batch] ch by simp
  have len: "length results = min 10 (length names)"
    using settle_length[of sources done_at 0 c' checked] st checked by (simp add: min.commute)
  have nth: "\<And>j. j < length results \<Longrightarrow>
      results ! j = result_of sources j (names ! j, fst (getCachedPE c now (names ! j)))"
    using settle_nth[of _ checked sources done_at 0 c'] st checked len by simp
  have names: "map r_name results = ?batch"
  proof (rule nth_equalityI)
    show "length (map r_name results) = length ?batch" using len by (simp add: min.commute)
  next
    fix j assume "j < length (map r_name results)"
    then show "map r_name results ! j = ?batch ! j"
      using nth[of j] len by (simp add: result_of_def Let_def split: option.splits)
  qed
  have each: "\<forall>j<length results.
          results ! j =
            (case fst (getCachedPE c now (names ! j)) of
               Some cached \<Rightarrow>
                 \<lparr> r_name = names ! j, r_pe = ce_pe cached, r_marketCap = ce_marketCap cached,
                   r_symbol = ce_symbol cached \<rparr>
             | None \<Rightarrow>
                 \<lparr> r_name = names ! j,
                   r_pe = d_pe (fst (fetchStockPE (sources j) j (names ! j))),
                   r_marketCap = d_marketCap (fst (fetchStockPE (sources j) j (names ! j))),
                   r_symbol = d_symbol (fst (fetchStockPE (sources j) j (names ! j))) \<rparr>)"
    using nth by (simp add: result_of_def Let_def split: option.splits)
  have failed: "\<forall>j<length results.
          fst (getCachedPE c now (names ! j)) = None
          \<and> fst (fetchStockPE (sources j) j (names ! j)) = no_data
          \<longrightarrow> results ! j = \<lparr> r_name = names ! j, r_pe = None, r_marketCap = None, r_symbol = None \<rparr>"
    using nth by (simp add: result_of_def no_data_def)
  have eff: "\<forall>e\<in>set evs.
          \<exists>j<min 10 (length names). e = AskScreener j (names ! j) \<or> e = AskNSE j (names ! j)"
  proof
    fix e assume "e \<in> set evs"
    with settle_effects[of e sources done_at 0 c' checked] st
    obtain i where "i < length checked"
      "e = AskScreener i (fst (checked ! i)) \<or> e = AskNSE i (fst (checked ! i))" by auto
    then show "\<exists>j<min 10 (length names). e = AskScreener j (names ! j) \<or> e = AskNSE j (names ! j)"
      using checked by (intro exI[of _ i]) (auto simp: min.commute)
  qed
  have run: "POST_batch sources now done_at c (Payload names)
      = \<lparr> response = Status200 results, pe_cache_after = c'', effects = evs \<rparr>"
    by (simp add: POST_batch_def ch st)
  have eff': "\<forall>e\<in>set (effects (POST_batch sources now done_at c (Payload names))).
          \<exists>j<min 10 (length names). e = AskScreener j (names ! j) \<or> e = AskNSE j (names ! j)"
    using eff by (simp add: run)
  have resp: "response (POST_batch sources now done_at c (Payload names)) = Status200 results"
    by (simp add: run)
  show ?thesis
    by (rule exI[of _ results]) (intro conjI resp len names each failed eff')
qed

text \<open>
  Fifteen names against a cache that holds the third: ten results, of which the first found
  nothing and is bare, the second carries what its lookup found and the third what the cache
  held.
\<close>

theorem batch_capped_partial_witness:
  "\<exists>results.
      response (POST_batch odd_sources 0 (\<lambda>j. 1) warm_cache (Payload fifteen)) = Status200 results
    \<and> length results = 10
    \<and> map r_name results = take 10 fifteen
    \<and> results ! 0 = \<lparr> r_name = ''a0'', r_pe = None, r_marketCap = None, r_symbol = None \<rparr>
    \<and> results ! 1 = \<lparr> r_name = ''a1'', r_pe = Some 20, r_marketCap = None, r_symbol = Some ''a1'' \<rparr>
    \<and> results ! 2 = \<lparr> r_name = ''a2'', r_pe = Some 7, r_marketCap = Some ''9 Cr'',
                       r_symbol = Some ''A2'' \<rparr>"
proof -
  have h0: "fst (getCachedPE warm_cache 0 (fifteen ! 0)) = None
      \<and> fst (fetchStockPE (odd_sources 0) 0 (fifteen ! 0)) = no_data"
    by code_simp
  have e0: "\<lparr> r_name = fifteen ! 0, r_pe = None, r_marketCap = None, r_symbol = None \<rparr>
      = \<lparr> r_name = ''a0'', r_pe = None, r_marketCap = None, r_symbol = None \<rparr>"
    by (simp add: fifteen_def)
  have e1: "(case fst (getCachedPE warm_cache 0 (fifteen ! 1)) of
               Some cached \<Rightarrow>
                 \<lparr> r_name = fifteen ! 1, r_pe = ce_pe cached, r_marketCap = ce_marketCap cached,
                   r_symbol = ce_symbol cached \<rparr>
             | None \<Rightarrow>
                 \<lparr> r_name = fifteen ! 1,
                   r_pe = d_pe (fst (fetchStockPE (odd_sources 1) 1 (fifteen ! 1))),
                   r_marketCap = d_marketCap (fst (fetchStockPE (odd_sources 1) 1 (fifteen ! 1))),
                   r_symbol = d_symbol (fst (fetchStockPE (odd_sources 1) 1 (fifteen ! 1))) \<rparr>)
      = \<lparr> r_name = ''a1'', r_pe = Some 20, r_marketCap = None, r_symbol = Some ''a1'' \<rparr>"
    by code_simp
  have e2: "(case fst (getCachedPE warm_cache 0 (fifteen ! 2)) of
               Some cached \<Rightarrow>
                 \<lparr> r_name = fifteen ! 2, r_pe = ce_pe cached, r_marketCap = ce_marketCap cached,
                   r_symbol = ce_symbol cached \<rparr>
             | None \<Rightarrow>
                 \<lparr> r_name = fifteen ! 2,
                   r_pe = d_pe (fst (fetchStockPE (odd_sources 2) 2 (fifteen ! 2))),
                   r_marketCap = d_marketCap (fst (fetchStockPE (odd_sources 2) 2 (fifteen ! 2))),
                   r_symbol = d_symbol (fst (fetchStockPE (odd_sources 2) 2 (fifteen ! 2))) \<rparr>)
      = \<lparr> r_name = ''a2'', r_pe = Some 7, r_marketCap = Some ''9 Cr'', r_symbol = Some ''A2'' \<rparr>"
    by code_simp
  have len: "min 10 (length fifteen) = 10" by (simp add: fifteen_def)
  from batch_capped_partial[of odd_sources 0 "\<lambda>j. 1" warm_cache fifteen]
  obtain results where
    all: "response (POST_batch odd_sources 0 (\<lambda>j. 1) warm_cache (Payload fifteen)) = Status200 results
      \<and> length results = min 10 (length fifteen)
      \<and> map r_name results = take 10 fifteen
      \<and> (\<forall>j<length results.
          results ! j =
            (case fst (getCachedPE warm_cache 0 (fifteen ! j)) of
               Some cached \<Rightarrow>
                 \<lparr> r_name = fifteen ! j, r_pe = ce_pe cached, r_marketCap = ce_marketCap cached,
                   r_symbol = ce_symbol cached \<rparr>
             | None \<Rightarrow>
                 \<lparr> r_name = fifteen ! j,
                   r_pe = d_pe (fst (fetchStockPE (odd_sources j) j (fifteen ! j))),
                   r_marketCap = d_marketCap (fst (fetchStockPE (odd_sources j) j (fifteen ! j))),
                   r_symbol = d_symbol (fst (fetchStockPE (odd_sources j) j (fifteen ! j))) \<rparr>))
      \<and> (\<forall>j<length results.
          fst (getCachedPE warm_cache 0 (fifteen ! j)) = None
          \<and> fst (fetchStockPE (odd_sources j) j (fifteen ! j)) = no_data
          \<longrightarrow> results ! j = \<lparr> r_name = fifteen ! j, r_pe = None, r_marketCap = None, r_symbol = None \<rparr>)
      \<and> (\<forall>e\<in>set (effects (POST_batch odd_sources 0 (\<lambda>j. 1) warm_cache (Payload fifteen))).
          \<exists>j<min 10 (length fifteen). e = AskScreener j (fifteen ! j) \<or> e = AskNSE j (fifteen ! j))" ..
  note r = all[THEN conjunct1]
  note l = all[THEN conjunct2, THEN conjunct1]
  note n = all[THEN conjunct2, THEN conjunct2, THEN conjunct1]
  note g = all[THEN conjunct2, THEN conjunct2, THEN conjunct2, THEN conjunct1]
  note f = all[THEN conjunct2, THEN conjunct2, THEN conjunct2, THEN conjunct2, THEN conjunct1]
  from l len have l': "length results = 10" by simp
  have z0: "results ! 0 = \<lparr> r_name = ''a0'', r_pe = None, r_marketCap = None, r_symbol = None \<rparr>"
    unfolding e0[symmetric]
  proof (rule f[rule_format])
    show "0 < length results" using l' by simp
    show "fst (getCachedPE warm_cache 0 (fifteen ! 0)) = None
      \<and> fst (fetchStockPE (odd_sources 0) 0 (fifteen ! 0)) = no_data" by (rule h0)
  qed
  have "1 < length results" using l' by simp
  from g[rule_format, OF this]
  have z1: "results ! 1 = \<lparr> r_name = ''a1'', r_pe = Some 20, r_marketCap = None, r_symbol = Some ''a1'' \<rparr>"
    unfolding e1 .
  have "2 < length results" using l' by simp
  from g[rule_format, OF this]
  have z2: "results ! 2 = \<lparr> r_name = ''a2'', r_pe = Some 7, r_marketCap = Some ''9 Cr'',
                       r_symbol = Some ''A2'' \<rparr>"
    unfolding e2 .
  show ?thesis
    by (rule exI[of _ results]) (intro conjI r l' n z0 z1 z2)
qed

lemma gilt_is_debt: "isDebtInstrument gilt"
  by code_simp

text \<open>
  The bulk pipeline returns a holding whose name matches the fixed-income heuristic as it
  is and asks no provider about it.
\<close>

lemma enrich_batch_Cons:
  "fst (enrich_batch sources j (h # hs))
     = fst (enrich_one sources j h) # fst (enrich_batch sources (Suc j) hs)"
  "snd (enrich_batch sources j (h # hs))
     = snd (enrich_one sources j h) @ snd (enrich_batch sources (Suc j) hs)"
  by (simp_all split: prod.splits)

lemma enrich_batch_nth:
  "i < length hs \<Longrightarrow> fst (enrich_batch sources j hs) ! i = fst (enrich_one sources (j + i) (hs ! i))"
proof (induction hs arbitrary: i j)
  case Nil
  then show ?case by simp
next
  case (Cons h hs)
  show ?case
  proof (cases i)
    case 0
    then show ?thesis by (simp add: enrich_batch_Cons del: enrich_batch.simps)
  next
    case (Suc i')
    with Cons.prems have "i' < length hs" by simp
    from Cons.IH[OF this, of "Suc j"] Suc show ?thesis
      by (simp add: enrich_batch_Cons del: enrich_batch.simps)
  qed
qed

lemma enrich_batch_length: "length (fst (enrich_batch sources j hs)) = length hs"
proof (induction hs arbitrary: j)
  case Nil
  show ?case by simp
next
  case (Cons h hs)
  then show ?case by (simp add: enrich_batch_Cons del: enrich_batch.simps)
qed

lemma enrich_batch_effects:
  "e \<in> set (snd (enrich_batch sources j hs)) \<Longrightarrow>
   \<exists>i<length hs. e \<in> set (snd (enrich_one sources (j + i) (hs ! i)))"
proof (induction hs arbitrary: j)
  case Nil
  then show ?case by simp
next
  case (Cons h hs)
  from Cons.prems have "e \<in> set (snd (enrich_one sources j h)) \<or> e \<in> set (snd (enrich_batch sources (Suc j) hs))"
    by (simp add: enrich_batch_Cons del: enrich_batch.simps)
  then show ?case
  proof
    assume "e \<in> set (snd (enrich_one sources j h))"
    then show ?thesis by (intro exI[of _ 0]) simp
  next
    assume "e \<in> set (snd (enrich_batch sources (Suc j) hs))"
    from Cons.IH[OF this] obtain i where "i < length hs"
      "e \<in> set (snd (enrich_one sources (Suc j + i) (hs ! i)))" by blast
    then show ?thesis by (intro exI[of _ "Suc i"]) simp
  qed
qed

lemma enrich_from_length: "length (fst (enrich_from sources i hs)) = length hs - i"
proof (induction sources i hs rule: enrich_from.induct)
  case (1 sources i hs)
  show ?case
  proof (cases "i < length hs")
    case True
    obtain b evs where b: "enrich_batch sources i (take 5 (drop i hs)) = (b, evs)"
      by (cases "enrich_batch sources i (take 5 (drop i hs))") auto
    obtain r evs' where r: "enrich_from sources (i + 5) hs = (r, evs')"
      by (cases "enrich_from sources (i + 5) hs") auto
    from 1[OF True b[symmetric]] r have "length r = length hs - (i + 5)" by simp
    moreover from enrich_batch_length[of sources i "take 5 (drop i hs)"] b
    have "length b = min 5 (length hs - i)" by (simp add: min.commute)
    ultimately show ?thesis
      using True by (subst enrich_from.simps) (simp add: b r)
  next
    case False
    then show ?thesis by (subst enrich_from.simps) simp
  qed
qed

lemma enrich_from_nth:
  "k < length hs - i \<Longrightarrow>
   fst (enrich_from sources i hs) ! k = fst (enrich_one sources (i + k) (hs ! (i + k)))"
proof (induction sources i hs arbitrary: k rule: enrich_from.induct)
  case (1 sources i hs)
  then have lt: "i < length hs" by simp
  obtain b evs where b: "enrich_batch sources i (take 5 (drop i hs)) = (b, evs)"
    by (cases "enrich_batch sources i (take 5 (drop i hs))") auto
  obtain r evs' where r: "enrich_from sources (i + 5) hs = (r, evs')"
    by (cases "enrich_from sources (i + 5) hs") auto
  have lb: "length b = min 5 (length hs - i)"
    using enrich_batch_length[of sources i "take 5 (drop i hs)"] b by (simp add: min.commute)
  have res: "fst (enrich_from sources i hs) = b @ r"
    using lt by (subst enrich_from.simps) (simp add: b r)
  show ?case
  proof (cases "k < 5")
    case True
    with "1.prems" lb have kb: "k < length b" by simp
    then have "k < length (take 5 (drop i hs))" using lb by simp
    from enrich_batch_nth[OF this, of sources i] b
    have "b ! k = fst (enrich_one sources (i + k) (take 5 (drop i hs) ! k))" by simp
    with True "1.prems" kb show ?thesis by (simp add: res nth_append)
  next
    case False
    with "1.prems" lb have l5: "length b = 5" by simp
    from False "1.prems" have k': "k - 5 < length hs - (i + 5)" by simp
    from "1.IH"[OF lt b[symmetric] k'] r
    have "r ! (k - 5) = fst (enrich_one sources (i + 5 + (k - 5)) (hs ! (i + 5 + (k - 5))))" by simp
    with False l5 show ?thesis by (simp add: res nth_append)
  qed
qed

lemma enrich_from_effects:
  "e \<in> set (snd (enrich_from sources i hs)) \<Longrightarrow>
   e = Sleep 200 \<or> (\<exists>k<length hs. e \<in> set (snd (enrich_one sources k (hs ! k))))"
proof (induction sources i hs rule: enrich_from.induct)
  case (1 sources i hs)
  show ?case
  proof (cases "i < length hs")
    case True
    obtain b evs where b: "enrich_batch sources i (take 5 (drop i hs)) = (b, evs)"
      by (cases "enrich_batch sources i (take 5 (drop i hs))") auto
    obtain r evs' where r: "enrich_from sources (i + 5) hs = (r, evs')"
      by (cases "enrich_from sources (i + 5) hs") auto
    have "snd (enrich_from sources i hs) = evs @ (if i + 5 < length hs then [Sleep 200] else []) @ evs'"
      using True by (subst enrich_from.simps) (simp add: b r)
    with "1.prems" consider "e \<in> set evs" | "e = Sleep 200" | "e \<in> set evs'"
      by (auto split: if_splits)
    then show ?thesis
    proof cases
      case 1
      with enrich_batch_effects[of e sources i "take 5 (drop i hs)"] b
      obtain j where j: "j < length (take 5 (drop i hs))"
        "e \<in> set (snd (enrich_one sources (i + j) (take 5 (drop i hs) ! j)))" by auto
      then have "i + j < length hs" "take 5 (drop i hs) ! j = hs ! (i + j)" by auto
      with j show ?thesis by auto
    next
      case 2
      then show ?thesis by simp
    next
      case 3
      with "1.IH"[OF True b[symmetric]] r show ?thesis by simp
    qed
  next
    case False
    with "1.prems" show ?thesis by (subst (asm) enrich_from.simps) simp
  qed
qed

lemma enrich_one_effects:
  "e \<in> set (snd (enrich_one sources k h)) \<Longrightarrow>
   \<not> isDebtInstrument (h_name h) \<and> (e = AskScreener k (h_name h) \<or> e = AskNSE k (h_name h))"
  by (auto simp: enrich_one_def fetchStockPE_def symbol_only_def Let_def
      split: if_splits option.splits prod.splits)

lemma bulk_skips_debt:
  assumes "i < length hs" and "isDebtInstrument (h_name (hs ! i))"
  shows "fst (enrichHoldingsWithPE sources hs) ! i = hs ! i"
    and "AskScreener i nm \<notin> set (snd (enrichHoldingsWithPE sources hs))"
    and "AskNSE i nm \<notin> set (snd (enrichHoldingsWithPE sources hs))"
proof -
  from assms show "fst (enrichHoldingsWithPE sources hs) ! i = hs ! i"
    using enrich_from_nth[of i hs 0 sources] by (simp add: enrichHoldingsWithPE_def enrich_one_def)
  have no: "\<And>e. e \<in> set (snd (enrichHoldingsWithPE sources hs)) \<Longrightarrow>
      e \<noteq> AskScreener i nm \<and> e \<noteq> AskNSE i nm"
  proof -
    fix e assume "e \<in> set (snd (enrichHoldingsWithPE sources hs))"
    from enrich_from_effects[OF this[unfolded enrichHoldingsWithPE_def]]
    show "e \<noteq> AskScreener i nm \<and> e \<noteq> AskNSE i nm"
    proof
      assume "e = Sleep 200"
      then show ?thesis by simp
    next
      assume "\<exists>k<length hs. e \<in> set (snd (enrich_one sources k (hs ! k)))"
      then obtain k where k: "e \<in> set (snd (enrich_one sources k (hs ! k)))" by blast
      from enrich_one_effects[OF k] assms(2) show ?thesis by auto
    qed
  qed
  from no[of "AskScreener i nm"] show "AskScreener i nm \<notin> set (snd (enrichHoldingsWithPE sources hs))" by blast
  from no[of "AskNSE i nm"] show "AskNSE i nm \<notin> set (snd (enrichHoldingsWithPE sources hs))" by blast
qed

text \<open>
  Claim C8 fails on the batch endpoint, which has no fixed-income check: the name
  \<open>7.26% GOI 2033\<close> matches the heuristic, yet the endpoint asks the ratio provider about it
  and returns the ratio the provider gives. The bulk pipeline skips such a name
  (\<open>bulk_skips_debt\<close>).
\<close>

theorem batch_endpoint_looks_up_debt_name:
  "isDebtInstrument gilt
   \<and> response (POST_batch gilt_sources 0 (\<lambda>j. 1) Map.empty (Payload [gilt]))
       = Status200 [\<lparr> r_name = gilt, r_pe = Some 12, r_marketCap = Some ''1 Cr'', r_symbol = Some ''GOI'' \<rparr>]
   \<and> effects (POST_batch gilt_sources 0 (\<lambda>j. 1) Map.empty (Payload [gilt])) = [AskScreener 0 gilt]"
proof -
  have c: "check_cache Map.empty 0 [gilt] = ([(gilt, None)], Map.empty)"
    by (simp add: getCachedPE_def)
  have f: "fetchStockPE (gilt_sources 0) 0 gilt
      = (\<lparr> d_pe = Some 12, d_marketCap = Some ''1 Cr'', d_symbol = Some ''GOI'' \<rparr>, [AskScreener 0 gilt])"
    by (simp add: fetchStockPE_def gilt_sources_def truthy_num_def)
  have s: "settle gilt_sources (\<lambda>j. 1) 0 Map.empty [(gilt, None)]
      = ([\<lparr> r_name = gilt, r_pe = Some 12, r_marketCap = Some ''1 Cr'', r_symbol = Some ''GOI'' \<rparr>],
         cachePE Map.empty 1 gilt \<lparr> d_pe = Some 12, d_marketCap = Some ''1 Cr'', d_symbol = Some ''GOI'' \<rparr>,
         [AskScreener 0 gilt])"
    by (simp add: f)
  have run: "POST_batch gilt_sources 0 (\<lambda>j. 1) Map.empty (Payload [gilt])
      = \<lparr> response = Status200 [\<lparr> r_name = gilt, r_pe = Some 12, r_marketCap = Some ''1 Cr'', r_symbol = Some ''GOI'' \<rparr>],
          pe_cache_after = cachePE Map.empty 1 gilt \<lparr> d_pe = Some 12, d_marketCap = Some ''1 Cr'', d_symbol = Some ''GOI'' \<rparr>,
          effects = [AskScreener 0 gilt] \<rparr>"
    unfolding POST_batch_def by (simp add: c s del: check_cache.simps settle.simps)
  show ?thesis
    using gilt_is_debt by (simp add: run)
qed

section \<open>Properties of the aggregation\<close>

lemma find_snoc:
  "find P (xs @ [x]) = (case find P xs of None \<Rightarrow> (if P x then Some x else None) | Some y \<Rightarrow> Some y)"
  by (induction xs) auto

lemma find_None_filter: "find P xs = None \<Longrightarrow> filter P xs = []"
  by (induction xs) (auto split: if_splits)

lemma consolidate_step_ok:
  assumes "consolidated_ok xs st"
  shows "consolidated_ok (xs @ [x]) (consolidate_step st x)"
proof -
  obtain funds tot where st: "st = (funds, tot)" by (cases st)
  from assms st have tot: "tot = sum_list (map folio_value xs)"
    and dist: "distinct (map fst funds)"
    and mp: "\<And>f. map_of funds f =
            (case find (\<lambda>mf. fund mf = f) xs of
               None \<Rightarrow> None
             | Some first \<Rightarrow>
                 Some \<lparr> cf_tradingsymbol = tradingsymbol first, cf_fund = f,
                        totalValue = sum_list (map folio_value (filter (\<lambda>mf. fund mf = f) xs)) \<rparr>)"
    by (auto simp: consolidated_ok_def)
  show ?thesis
  proof (cases "map_of funds (fund x)")
    case None
    with mp[of "fund x"] have fn: "find (\<lambda>mf. fund mf = fund x) xs = None"
      by (auto split: option.splits)
    then have fl: "filter (\<lambda>mf. fund mf = fund x) xs = []" by (rule find_None_filter)
    have step: "consolidate_step st x =
        (AList.update (fund x) \<lparr> cf_tradingsymbol = tradingsymbol x, cf_fund = fund x,
            totalValue = folio_value x \<rparr> funds, tot + folio_value x)"
      using None by (simp add: consolidate_step_def st Let_def folio_value_def)
    show ?thesis
      unfolding step consolidated_ok_def
      using tot dist mp fn fl
      by (auto simp: update_conv' distinct_update find_snoc split: option.splits)
  next
    case (Some cf)
    with mp[of "fund x"] obtain first where fn: "find (\<lambda>mf. fund mf = fund x) xs = Some first"
      by (auto split: option.splits)
    have step: "consolidate_step st x =
        (AList.map_entry (fund x) (\<lambda>cf. cf \<lparr> totalValue := totalValue cf + folio_value x \<rparr>) funds,
         tot + folio_value x)"
      using Some by (simp add: consolidate_step_def st Let_def folio_value_def)
    show ?thesis
      unfolding step consolidated_ok_def
      using tot dist mp fn
      by (auto simp: map_of_map_entry distinct_map_entry find_snoc split: option.splits)
  qed
qed

lemma consolidate_ok: "consolidated_ok xs (consolidate xs)"
  unfolding consolidate_def
proof (induction xs rule: rev_induct)
  case Nil
  show ?case by (simp add: consolidated_ok_def)
next
  case (snoc x xs)
  then show ?case by (simp add: consolidate_step_ok)
qed

lemma alist_values_filter:
  "distinct (map fst al) \<Longrightarrow> \<forall>(k, v)\<in>set al. key v = k \<Longrightarrow>
   filter (\<lambda>v. key v = f) (map snd al) = (case map_of al f of None \<Rightarrow> [] | Some v \<Rightarrow> [v])"
proof (induction al)
  case Nil
  then show ?case by simp
next
  case (Cons p al)
  obtain k v where p: "p = (k, v)" by (cases p)
  from Cons.prems p have kv: "key v = k" by simp
  from Cons.prems p have notin: "k \<notin> fst ` set al" by simp
  have ih: "filter (\<lambda>v. key v = f) (map snd al) = (case map_of al f of None \<Rightarrow> [] | Some v \<Rightarrow> [v])"
    using Cons by simp
  show ?case
  proof (cases "k = f")
    case True
    with notin have "map_of al f = None" by (simp add: map_of_eq_None_iff)
    with ih True kv p show ?thesis by simp
  next
    case False
    with ih kv p show ?thesis by simp
  qed
qed

lemma consolidated_keys:
  assumes "consolidated_ok xs st"
  shows "\<forall>(k, v)\<in>set (fst st). cf_fund v = k"
proof (clarify)
  fix k v assume "(k, v) \<in> set (fst st)"
  moreover from assms have "distinct (map fst (fst st))" by (simp add: consolidated_ok_def)
  ultimately have "map_of (fst st) k = Some v" by simp
  moreover from assms have "map_of (fst st) k =
            (case find (\<lambda>mf. fund mf = k) xs of
               None \<Rightarrow> None
             | Some first \<Rightarrow>
                 Some \<lparr> cf_tradingsymbol = tradingsymbol first, cf_fund = k,
                        totalValue = sum_list (map folio_value (filter (\<lambda>mf. fund mf = k) xs)) \<rparr>)"
    by (simp add: consolidated_ok_def)
  ultimately show "cf_fund v = k"
    by (auto split: option.splits)
qed

lemma uniqueFunds_distinct: "distinct (map cf_fund (uniqueFunds xs))"
proof -
  let ?al = "fst (consolidate xs)"
  have k: "\<forall>(k, v)\<in>set ?al. cf_fund v = k" by (rule consolidated_keys[OF consolidate_ok])
  have e: "map (cf_fund \<circ> snd) ?al = map fst ?al"
    by (rule map_cong[OF refl]) (use k in auto)
  have d: "distinct (map fst ?al)" using consolidate_ok[of xs] by (simp add: consolidated_ok_def)
  show ?thesis unfolding uniqueFunds_def map_map e by (rule d)
qed

lemma uniqueFunds_entry:
  "filter (\<lambda>cf. cf_fund cf = f) (uniqueFunds xs)
     = (case find (\<lambda>mf. fund mf = f) xs of
          None \<Rightarrow> []
        | Some first \<Rightarrow>
            [\<lparr> cf_tradingsymbol = tradingsymbol first, cf_fund = f,
               totalValue = sum_list (map folio_value (filter (\<lambda>mf. fund mf = f) xs)) \<rparr>])"
proof -
  let ?al = "fst (consolidate xs)"
  have ok: "consolidated_ok xs (consolidate xs)" by (rule consolidate_ok)
  have "filter (\<lambda>cf. cf_fund cf = f) (map snd ?al) = (case map_of ?al f of None \<Rightarrow> [] | Some v \<Rightarrow> [v])"
    by (rule alist_values_filter) (use ok consolidated_keys[OF ok] in \<open>auto simp: consolidated_ok_def\<close>)
  with ok show ?thesis
    by (auto simp: uniqueFunds_def consolidated_ok_def split: option.splits)
qed

lemma upd_first_distinct:
  "distinct (map key xs) \<Longrightarrow>
   upd_first (\<lambda>e. key e = n) f xs = map (\<lambda>e. if key e = n then f e else e) xs"
proof (induction xs)
  case Nil
  then show ?case by simp
next
  case (Cons x xs)
  show ?case
  proof (cases "key x = n")
    case True
    with Cons.prems have "n \<notin> key ` set xs" by simp
    then have "\<forall>e\<in>set xs. key e \<noteq> n" by blast
    then have "map (\<lambda>e. if key e = n then f e else e) xs = xs" by (induction xs) auto
    with True show ?thesis by simp
  next
    case False
    with Cons show ?thesis by simp
  qed
qed

lemma shares_ok_new:
  "shares_ok [\<lparr> fs_name = c_fund c, fs_percentage = c_pct c, fs_value = c_value c \<rparr>] [c]"
  by (simp add: shares_ok_def)

lemma sum_filter_snoc:
  "sum_list (map f (filter P (ks @ [c]))) = sum_list (map f (filter P ks)) + (if P c then f c else 0)"
  by simp

lemma shares_ok_add:
  assumes "shares_ok fs ks"
  shows "shares_ok (add_share (c_fund c) (c_pct c) (c_value c) fs) (ks @ [c])"
proof -
  let ?n = "c_fund c"
  let ?V = "\<lambda>n ks. sum_list (map c_value (filter (\<lambda>c. c_fund c = n) ks))"
  let ?P = "\<lambda>n ks. sum_list (map c_pct (filter (\<lambda>c. c_fund c = n) ks))"
  from assms have d: "distinct (map fs_name fs)"
    and s: "set (map fs_name fs) = c_fund ` set ks"
    and v: "\<And>e. e \<in> set fs \<Longrightarrow> fs_value e = ?V (fs_name e) ks \<and> fs_percentage e = ?P (fs_name e) ks"
    by (auto simp: shares_ok_def list_all_iff)
  have V: "\<And>n. ?V n (ks @ [c]) = ?V n ks + (if ?n = n then c_value c else 0)"
    by (rule sum_filter_snoc)
  have P: "\<And>n. ?P n (ks @ [c]) = ?P n ks + (if ?n = n then c_pct c else 0)"
    by (rule sum_filter_snoc)
  show ?thesis
  proof (cases "list_ex (\<lambda>f. fs_name f = ?n) fs")
    case True
    let ?g = "\<lambda>e. if fs_name e = ?n
                  then e \<lparr> fs_percentage := fs_percentage e + c_pct c, fs_value := fs_value e + c_value c \<rparr>
                  else e"
    have a: "add_share ?n (c_pct c) (c_value c) fs = map ?g fs"
      using True upd_first_distinct[OF d] by (simp add: add_share_def)
    have gn: "\<And>e. fs_name (?g e) = fs_name e" by simp
    have names: "map fs_name (map ?g fs) = map fs_name fs"
      unfolding map_map comp_def gn ..
    from True obtain f where "f \<in> set fs" "fs_name f = ?n" by (auto simp: list_ex_iff)
    then have "?n \<in> set (map fs_name fs)" by (metis image_eqI set_map)
    with s have "?n \<in> c_fund ` set ks" by simp
    then have inset: "c_fund ` set (ks @ [c]) = c_fund ` set ks" by auto
    have vals: "list_all (\<lambda>e. fs_value e = ?V (fs_name e) (ks @ [c])
                             \<and> fs_percentage e = ?P (fs_name e) (ks @ [c])) (map ?g fs)"
      unfolding list_all_iff
    proof
      fix e' assume "e' \<in> set (map ?g fs)"
      then obtain e where e: "e \<in> set fs" "e' = ?g e" by auto
      show "fs_value e' = ?V (fs_name e') (ks @ [c]) \<and> fs_percentage e' = ?P (fs_name e') (ks @ [c])"
      proof (cases "fs_name e = ?n")
        case True
        with e v[OF e(1)] show ?thesis unfolding V P by simp
      next
        case False
        then have "?n \<noteq> fs_name e" by simp
        with False e v[OF e(1)] show ?thesis unfolding V P by simp
      qed
    qed
    show ?thesis
      unfolding a shares_ok_def names inset
      using d s vals by (intro conjI)
  next
    case False
    let ?new = "\<lparr> fs_name = ?n, fs_percentage = c_pct c, fs_value = c_value c \<rparr>"
    have a: "add_share ?n (c_pct c) (c_value c) fs = fs @ [?new]"
      using False by (simp add: add_share_def)
    from False have notin: "?n \<notin> set (map fs_name fs)" by (auto simp: list_ex_iff)
    with s have ni: "?n \<notin> c_fund ` set ks" by simp
    then have "\<forall>c'\<in>set ks. c_fund c' \<noteq> ?n" by (metis imageI)
    then have none: "filter (\<lambda>c'. c_fund c' = ?n) ks = []"
      by (simp add: filter_empty_conv)
    have d': "distinct (map fs_name (fs @ [?new]))" using d notin by simp
    have s': "set (map fs_name (fs @ [?new])) = c_fund ` set (ks @ [c])" using s by auto
    have vals: "list_all (\<lambda>e. fs_value e = ?V (fs_name e) (ks @ [c])
                             \<and> fs_percentage e = ?P (fs_name e) (ks @ [c])) (fs @ [?new])"
      unfolding list_all_iff
    proof
      fix e assume "e \<in> set (fs @ [?new])"
      then consider "e \<in> set fs" | "e = ?new" by auto
      then show "fs_value e = ?V (fs_name e) (ks @ [c]) \<and> fs_percentage e = ?P (fs_name e) (ks @ [c])"
      proof cases
        case 1
        with notin have "?n \<noteq> fs_name e" by auto
        with v[OF 1] show ?thesis unfolding V P by simp
      next
        case 2
        then show ?thesis unfolding V P by (simp add: none)
      qed
    qed
    show ?thesis
      unfolding a shares_ok_def
      using d' s' vals by (intro conjI)
  qed
qed

lemma merge_holding_ok:
  assumes "merged_ok tpv m cs"
  shows "merged_ok tpv (merge_holding mf (totalValue mf) (fundWeight tpv mf) m h) (cs @ [(mf, h)])"
proof -
  let ?c = "(mf, h)"
  let ?k0 = "dedup_key (h_name h)"
  from assms have d: "distinct (map fst m)"
    and inv: "\<And>k. case map_of m k of
                None \<Rightarrow> filter (\<lambda>c. c_key c = k) cs = []
              | Some a \<Rightarrow> record_ok tpv k a (filter (\<lambda>c. c_key c = k) cs)"
    by (auto simp: merged_ok_def)
  have ck: "c_key ?c = ?k0" by (simp add: c_key_def)
  show ?thesis
  proof (cases "map_of m ?k0")
    case None
    let ?a = "\<lparr> a_name = h_name h, a_symbol = h_symbol h,
                 a_totalValue = c_value ?c, a_totalPercentage = c_weight tpv ?c,
                 a_funds = [\<lparr> fs_name = c_fund ?c, fs_percentage = c_pct ?c, fs_value = c_value ?c \<rparr>],
                 a_pe = h_pe h, a_marketCap = h_marketCap h, a_sector = h_sector h \<rparr>"
    have step: "merge_holding mf (totalValue mf) (fundWeight tpv mf) m h = AList.update ?k0 ?a m"
      using None by (simp add: merge_holding_def Let_def c_value_def c_weight_def c_fund_def c_pct_def)
    from inv[of ?k0] None have e: "filter (\<lambda>c. c_key c = ?k0) cs = []" by simp
    have new: "record_ok tpv ?k0 ?a (filter (\<lambda>c. c_key c = ?k0) (cs @ [?c]))"
      using e ck shares_ok_new[of ?c] by (simp add: record_ok_def)
    show ?thesis
      unfolding step merged_ok_def
    proof (intro conjI allI)
      show "distinct (map fst (AList.update ?k0 ?a m))" using d by (simp add: distinct_update)
    next
      fix k
      show "case map_of (AList.update ?k0 ?a m) k of
              None \<Rightarrow> filter (\<lambda>c. c_key c = k) (cs @ [?c]) = []
            | Some a \<Rightarrow> record_ok tpv k a (filter (\<lambda>c. c_key c = k) (cs @ [?c]))"
      proof (cases "k = ?k0")
        case True
        with new show ?thesis by (simp add: update_conv')
      next
        case False
        with inv[of k] ck show ?thesis by (simp add: update_conv' split: option.splits)
      qed
    qed
  next
    case (Some existing)
    let ?a = "existing
                  \<lparr> a_totalValue := a_totalValue existing + c_value ?c,
                    a_totalPercentage := a_totalPercentage existing + c_weight tpv ?c,
                    a_funds := add_share (c_fund ?c) (c_pct ?c) (c_value ?c) (a_funds existing),
                    a_pe := (if \<not> truthy_num (a_pe existing) \<and> truthy_num (h_pe h)
                             then h_pe h else a_pe existing),
                    a_marketCap := (if \<not> truthy_str (a_marketCap existing)
                                        \<and> truthy_str (h_marketCap h)
                                    then h_marketCap h else a_marketCap existing),
                    a_sector := (if \<not> truthy_str (a_sector existing) \<and> truthy_str (h_sector h)
                                 then h_sector h else a_sector existing),
                    a_symbol := (if \<not> truthy_str (a_symbol existing) \<and> truthy_str (h_symbol h)
                                 then h_symbol h else a_symbol existing) \<rparr>"
    have step: "merge_holding mf (totalValue mf) (fundWeight tpv mf) m h = AList.update ?k0 ?a m"
      using Some by (simp add: merge_holding_def Let_def c_value_def c_weight_def c_fund_def c_pct_def)
    from inv[of ?k0] Some have old: "record_ok tpv ?k0 existing (filter (\<lambda>c. c_key c = ?k0) cs)" by simp
    then have sh: "shares_ok (a_funds existing) (filter (\<lambda>c. c_key c = ?k0) cs)"
      by (simp add: record_ok_def)
    have new: "record_ok tpv ?k0 ?a (filter (\<lambda>c. c_key c = ?k0) (cs @ [?c]))"
      using old ck shares_ok_add[OF sh, of ?c] by (simp add: record_ok_def)
    show ?thesis
      unfolding step merged_ok_def
    proof (intro conjI allI)
      show "distinct (map fst (AList.update ?k0 ?a m))" using d by (simp add: distinct_update)
    next
      fix k
      show "case map_of (AList.update ?k0 ?a m) k of
              None \<Rightarrow> filter (\<lambda>c. c_key c = k) (cs @ [?c]) = []
            | Some a \<Rightarrow> record_ok tpv k a (filter (\<lambda>c. c_key c = k) (cs @ [?c]))"
      proof (cases "k = ?k0")
        case True
        with new show ?thesis by (simp add: update_conv')
      next
        case False
        with inv[of k] ck show ?thesis by (simp add: update_conv' split: option.splits)
      qed
    qed
  qed
qed

lemma aggregate_fund_flat:
  "aggregate_fund resolve tpv m mf = foldl (merge1 tpv) m (contributions resolve [mf])"
  by (cases "resolve (cf_tradingsymbol mf) (cf_fund mf)")
     (simp_all add: aggregate_fund_def contributions_def foldl_map merge1_def)

lemma contributions_Cons:
  "contributions resolve (mf # funds) = contributions resolve [mf] @ contributions resolve funds"
  by (simp add: contributions_def)

lemma aggregate_flat:
  "foldl (aggregate_fund resolve tpv) m funds = foldl (merge1 tpv) m (contributions resolve funds)"
proof (induction funds arbitrary: m)
  case Nil
  show ?case by (simp add: contributions_def)
next
  case (Cons mf funds)
  show ?case
    unfolding contributions_Cons[of resolve mf funds] foldl_append
    using Cons.IH by (simp add: aggregate_fund_flat)
qed

lemma merged_all: "merged_ok tpv (foldl (merge1 tpv) [] cs) cs"
proof (induction cs rule: rev_induct)
  case Nil
  show ?case by (simp add: merged_ok_def)
next
  case (snoc c cs)
  obtain mf h where c: "c = (mf, h)" by (cases c)
  from merge_holding_ok[OF snoc, of mf h] show ?case
    by (simp add: merge1_def c)
qed

lemma merged_keys:
  assumes "merged_ok tpv m cs"
  shows "\<forall>(k, a)\<in>set m. dedup_key (a_name a) = k"
proof clarify
  fix k a assume "(k, a) \<in> set m"
  moreover from assms have "distinct (map fst m)" by (simp add: merged_ok_def)
  ultimately have "map_of m k = Some a" by simp
  moreover from assms have "case map_of m k of
                None \<Rightarrow> filter (\<lambda>c. c_key c = k) cs = []
              | Some a \<Rightarrow> record_ok tpv k a (filter (\<lambda>c. c_key c = k) cs)"
    by (simp add: merged_ok_def)
  ultimately show "dedup_key (a_name a) = k" by (simp add: record_ok_def)
qed

lemma th_holdings_filter:
  assumes ks: "filter (\<lambda>c. c_key c = k) (contributions resolve (uniqueFunds mfHoldings)) \<noteq> []"
  shows "\<exists>a. filter (\<lambda>a. dedup_key (a_name a) = k) (th_holdings (top_holdings resolve mfHoldings)) = [a]
       \<and> record_ok (totalPortfolioValue (top_holdings resolve mfHoldings)) k a
            (filter (\<lambda>c. c_key c = k) (contributions resolve (uniqueFunds mfHoldings)))"
proof -
  let ?tpv = "snd (consolidate mfHoldings)"
  let ?cs = "contributions resolve (uniqueFunds mfHoldings)"
  let ?m = "foldl (aggregate_fund resolve ?tpv) [] (uniqueFunds mfHoldings)"
  have m: "?m = foldl (merge1 ?tpv) [] ?cs" by (rule aggregate_flat)
  have ok: "merged_ok ?tpv ?m ?cs" unfolding m by (rule merged_all)
  then have d: "distinct (map fst ?m)" by (simp add: merged_ok_def)
  from ok have "case map_of ?m k of
                None \<Rightarrow> filter (\<lambda>c. c_key c = k) ?cs = []
              | Some a \<Rightarrow> record_ok ?tpv k a (filter (\<lambda>c. c_key c = k) ?cs)"
    by (simp add: merged_ok_def)
  with ks obtain a where a: "map_of ?m k = Some a"
    and r: "record_ok ?tpv k a (filter (\<lambda>c. c_key c = k) ?cs)"
    by (auto split: option.splits)
  have f: "filter (\<lambda>a. dedup_key (a_name a) = k) (map snd ?m) = [a]"
    using alist_values_filter[OF d merged_keys[OF ok], of k] a by simp
  have res: "th_holdings (top_holdings resolve mfHoldings)
      = sort_key (\<lambda>a. - a_totalPercentage a) (map snd ?m)"
    by (simp add: top_holdings_def Let_def)
  have tp: "totalPortfolioValue (top_holdings resolve mfHoldings) = ?tpv"
    by (simp add: top_holdings_def Let_def)
  have "filter (\<lambda>a. dedup_key (a_name a) = k) (th_holdings (top_holdings resolve mfHoldings)) = [a]"
    unfolding res filter_sort f by simp
  with r show ?thesis unfolding tp by blast
qed

text \<open>
  Claim C7. For every request and every key that some resolved constituent has, the response
  holds exactly one record with that key; its value and portfolio-wide weight are the sums
  over all contributions with that key; its share list has one entry per contributing fund,
  each entry holding the sums of that fund's contributions, so a fund that contributes again
  is added to its entry and not appended.
\<close>

theorem merge_by_dedup_key:
  assumes ks: "ks = filter (\<lambda>c. c_key c = k) (contributions resolve (uniqueFunds mfHoldings))"
    and ne: "ks \<noteq> []"
  shows "\<exists>a. filter (\<lambda>a. dedup_key (a_name a) = k) (th_holdings (top_holdings resolve mfHoldings)) = [a]
       \<and> a_totalValue a = sum_list (map c_value ks)
       \<and> a_totalPercentage a
           = sum_list (map (c_weight (totalPortfolioValue (top_holdings resolve mfHoldings))) ks)
       \<and> distinct (map fs_name (a_funds a))
       \<and> set (map fs_name (a_funds a)) = c_fund ` set ks
       \<and> length (a_funds a) = card (c_fund ` set ks)
       \<and> (\<forall>e\<in>set (a_funds a).
             fs_value e = sum_list (map c_value (filter (\<lambda>c. c_fund c = fs_name e) ks))
           \<and> fs_percentage e = sum_list (map c_pct (filter (\<lambda>c. c_fund c = fs_name e) ks)))"
proof -
  from th_holdings_filter[of k resolve mfHoldings] ks ne
  obtain a where f: "filter (\<lambda>a. dedup_key (a_name a) = k) (th_holdings (top_holdings resolve mfHoldings)) = [a]"
    and r: "record_ok (totalPortfolioValue (top_holdings resolve mfHoldings)) k a ks"
    by auto
  from r have sh: "shares_ok (a_funds a) ks" by (simp add: record_ok_def)
  then have d: "distinct (map fs_name (a_funds a))"
    and s: "set (map fs_name (a_funds a)) = c_fund ` set ks"
    by (simp_all add: shares_ok_def)
  have "length (a_funds a) = card (set (map fs_name (a_funds a)))"
    using distinct_card[OF d] by simp
  then have l: "length (a_funds a) = card (c_fund ` set ks)" unfolding s .
  from sh have v: "\<forall>e\<in>set (a_funds a).
             fs_value e = sum_list (map c_value (filter (\<lambda>c. c_fund c = fs_name e) ks))
           \<and> fs_percentage e = sum_list (map c_pct (filter (\<lambda>c. c_fund c = fs_name e) ks))"
    by (simp add: shares_ok_def list_all_iff)
  from r have t: "a_totalValue a = sum_list (map c_value ks)"
    "a_totalPercentage a
           = sum_list (map (c_weight (totalPortfolioValue (top_holdings resolve mfHoldings))) ks)"
    by (simp_all add: record_ok_def)
  show ?thesis
    by (rule exI[of _ a]) (intro conjI f t d s l v)
qed

lemma filter_unique_key:
  "distinct (map f xs) \<Longrightarrow> x \<in> set xs \<Longrightarrow> filter (\<lambda>y. f y = f x) xs = [x]"
proof (induction xs)
  case Nil
  then show ?case by simp
next
  case (Cons y ys)
  show ?case
  proof (cases "y = x")
    case True
    from Cons.prems True have "f x \<notin> f ` set ys" by simp
    then have "\<forall>z\<in>set ys. f z \<noteq> f x" by (metis imageI)
    then have "filter (\<lambda>z. f z = f x) ys = []" by (simp add: filter_empty_conv)
    with True show ?thesis by simp
  next
    case False
    with Cons.prems have x: "x \<in> set ys" by simp
    from Cons.prems have "f y \<notin> f ` set ys" by simp
    with x have "f y \<noteq> f x" by (metis imageI)
    with Cons x show ?thesis by simp
  qed
qed

lemma contributions_of_fund:
  "distinct funds \<Longrightarrow> mf \<in> set funds \<Longrightarrow>
   filter (\<lambda>c. fst c = mf) (contributions resolve funds) = contributions resolve [mf]"
proof (induction funds)
  case Nil
  then show ?case by simp
next
  case (Cons g funds)
  have one: "\<And>g'. filter (\<lambda>c. fst c = mf) (contributions resolve [g'])
      = (if g' = mf then contributions resolve [mf] else [])"
    by (auto simp: contributions_def filter_empty_conv split: outcome.splits)
  have none: "mf \<notin> set funds \<Longrightarrow> filter (\<lambda>c. fst c = mf) (contributions resolve funds) = []"
    by (auto simp: contributions_def filter_empty_conv split: outcome.splits)
  show ?case
  proof (cases "g = mf")
    case True
    with Cons.prems have "mf \<notin> set funds" by simp
    with none True show ?thesis
      unfolding contributions_Cons[of resolve g funds] by (simp add: one)
  next
    case False
    with Cons show ?thesis
      unfolding contributions_Cons[of resolve g funds] by (simp add: one)
  qed
qed

lemma filter_singleton_find: "filter P xs = [a] \<Longrightarrow> find P xs = Some a"
  by (induction xs) (auto split: if_splits)

lemma sum_scaled: "sum_list (map (\<lambda>h. f h / 100 * (w::rat)) hs) = w * sum_list (map f hs) / 100"
  by (induction hs) (simp_all add: algebra_simps add_divide_distrib)

text \<open>
  Claim C6, amended. For a consolidated holding whose composition has no duplicate keys and
  whose constituents no other holding contributes to, the returned portfolio-wide weights of
  its constituents sum to the holding's weight times the sum of the constituents' internal
  weights over 100; they sum to the holding's weight when the internal weights sum to 100.
  The holding's weight is its value over the total, as a percentage (0 when the total is not
  positive).
\<close>

theorem weight_conservation:
  assumes mf: "mf \<in> set (uniqueFunds mfHoldings)"
    and res: "resolve (cf_tradingsymbol mf) (cf_fund mf) = Resolves p"
    and dk: "distinct (map (\<lambda>h. dedup_key (h_name h)) (holdings p))"
    and only: "\<forall>c\<in>set (contributions resolve (uniqueFunds mfHoldings)).
                 c_key c \<in> (\<lambda>h. dedup_key (h_name h)) ` set (holdings p) \<longrightarrow> fst c = mf"
  shows "sum_list (map (\<lambda>h. weight_of (th_holdings (top_holdings resolve mfHoldings)) (h_name h))
                      (holdings p))
           = fundWeight (totalPortfolioValue (top_holdings resolve mfHoldings)) mf
               * sum_list (map h_percentage (holdings p)) / 100
       \<and> (sum_list (map h_percentage (holdings p)) = 100 \<longrightarrow>
            sum_list (map (\<lambda>h. weight_of (th_holdings (top_holdings resolve mfHoldings)) (h_name h))
                       (holdings p))
              = fundWeight (totalPortfolioValue (top_holdings resolve mfHoldings)) mf)
       \<and> fundWeight (totalPortfolioValue (top_holdings resolve mfHoldings)) mf
           = (if totalPortfolioValue (top_holdings resolve mfHoldings) > 0
              then totalValue mf / totalPortfolioValue (top_holdings resolve mfHoldings) * 100
              else 0)"
proof -
  let ?cs = "contributions resolve (uniqueFunds mfHoldings)"
  let ?res = "th_holdings (top_holdings resolve mfHoldings)"
  let ?tpv = "totalPortfolioValue (top_holdings resolve mfHoldings)"
  let ?w = "fundWeight ?tpv mf"
  have dist: "distinct (uniqueFunds mfHoldings)"
    using uniqueFunds_distinct[of mfHoldings] by (simp add: distinct_map)
  have block: "filter (\<lambda>c. fst c = mf) ?cs = map (Pair mf) (holdings p)"
    using contributions_of_fund[OF dist mf, of resolve] res by (simp add: contributions_def)
  have each: "weight_of ?res (h_name h) = h_percentage h / 100 * ?w" if h: "h \<in> set (holdings p)" for h
  proof -
    let ?k = "dedup_key (h_name h)"
    have "filter (\<lambda>c. c_key c = ?k) ?cs = filter (\<lambda>c. c_key c = ?k) (filter (\<lambda>c. fst c = mf) ?cs)"
      unfolding filter_filter
    proof (rule filter_cong[OF refl])
      fix c assume "c \<in> set ?cs"
      with only h show "(c_key c = ?k) = (fst c = mf \<and> c_key c = ?k)" by blast
    qed
    also have "\<dots> = map (Pair mf) (filter (\<lambda>h'. dedup_key (h_name h') = ?k) (holdings p))"
      unfolding block by (simp add: filter_map comp_def c_key_def)
    also have "\<dots> = [(mf, h)]"
      using filter_unique_key[OF dk h] by simp
    finally have ks: "filter (\<lambda>c. c_key c = ?k) ?cs = [(mf, h)]" .
    then have "filter (\<lambda>c. c_key c = ?k) ?cs \<noteq> []" by simp
    from th_holdings_filter[OF this] ks
    obtain a where f: "filter (\<lambda>a. dedup_key (a_name a) = ?k) ?res = [a]"
      and r: "record_ok ?tpv ?k a [(mf, h)]" by auto
    from r have "a_totalPercentage a = h_percentage h / 100 * ?w"
      by (simp add: record_ok_def c_weight_def)
    with filter_singleton_find[OF f] show ?thesis by (simp add: weight_of_def)
  qed
  have "sum_list (map (\<lambda>h. weight_of ?res (h_name h)) (holdings p))
      = sum_list (map (\<lambda>h. h_percentage h / 100 * ?w) (holdings p))"
    by (rule arg_cong[where f = sum_list], rule map_cong[OF refl]) (rule each)
  also have "\<dots> = ?w * sum_list (map h_percentage (holdings p)) / 100" by (rule sum_scaled)
  finally have total: "sum_list (map (\<lambda>h. weight_of ?res (h_name h)) (holdings p))
      = ?w * sum_list (map h_percentage (holdings p)) / 100" .
  have hundred: "sum_list (map h_percentage (holdings p)) = 100 \<longrightarrow>
      sum_list (map (\<lambda>h. weight_of ?res (h_name h)) (holdings p)) = ?w"
    unfolding total by simp
  have w: "?w = (if ?tpv > 0 then totalValue mf / ?tpv * 100 else 0)"
    by (simp add: fundWeight_def)
  show ?thesis
    by (intro conjI total hundred w)
qed

text \<open>
  Claim C6 as stated fails when the constituents' internal weights do not sum to 100: a
  holding worth 100,000 of 400,000 (weight 25) whose two constituents are at 40 and 40 gets the
  aggregated weights 10 and 10, which sum to 20. It also fails when another holding holds
  one of the constituents: with constituents at 40 and 60 and the first also held at 10 by
  the other holding (weight 75), the returned weights are 17.5 and 15.
\<close>

theorem weight_conservation_counterexample:
  "uniqueFunds two_funds = [alpha, beta_fund]
   \<and> partial_alpha (cf_tradingsymbol alpha) (cf_fund alpha)
       = Resolves (build ''Alpha'' ''INF1'' [mk_holding ''Acme Ltd'' 40, mk_holding ''Bolt Inc'' 40] [] 0 ''Groww'')
   \<and> contributions partial_alpha (uniqueFunds two_funds)
       = [(alpha, mk_holding ''Acme Ltd'' 40), (alpha, mk_holding ''Bolt Inc'' 40)]
   \<and> dedup_key ''Acme Ltd'' \<noteq> dedup_key ''Bolt Inc''
   \<and> weight_of (th_holdings (top_holdings partial_alpha two_funds)) ''Acme Ltd'' = 10
   \<and> weight_of (th_holdings (top_holdings partial_alpha two_funds)) ''Bolt Inc'' = 10
   \<and> fundWeight (totalPortfolioValue (top_holdings partial_alpha two_funds)) alpha = 25
   \<and> sum_list (map (\<lambda>h. weight_of (th_holdings (top_holdings partial_alpha two_funds)) (h_name h))
                  [mk_holding ''Acme Ltd'' 40, mk_holding ''Bolt Inc'' 40])
       \<noteq> fundWeight (totalPortfolioValue (top_holdings partial_alpha two_funds)) alpha
   \<and> shared_acme (cf_tradingsymbol alpha) (cf_fund alpha)
       = Resolves (build ''Alpha'' ''INF1'' [mk_holding ''Acme Ltd'' 40, mk_holding ''Bolt Inc'' 60] [] 0 ''Groww'')
   \<and> fundWeight (totalPortfolioValue (top_holdings shared_acme two_funds)) alpha = 25
   \<and> sum_list (map (\<lambda>h. weight_of (th_holdings (top_holdings shared_acme two_funds)) (h_name h))
                  [mk_holding ''Acme Ltd'' 40, mk_holding ''Bolt Inc'' 60]) = 65 / 2"
  by code_simp

text \<open>
  The claim's example: 100,000 of 400,000 with constituents at 40 and 60 gives 10 and 15.
\<close>

theorem weight_conservation_witness:
  "sum_list (map (\<lambda>h. weight_of (th_holdings (top_holdings full_alpha two_funds)) (h_name h))
              [mk_holding ''Acme Ltd'' 40, mk_holding ''Bolt Inc'' 60]) = 25
   \<and> weight_of (th_holdings (top_holdings full_alpha two_funds)) ''Acme Ltd'' = 10
   \<and> weight_of (th_holdings (top_holdings full_alpha two_funds)) ''Bolt Inc'' = 15"
proof -
  let ?p = "build ''Alpha'' ''INF1'' [mk_holding ''Acme Ltd'' 40, mk_holding ''Bolt Inc'' 60] [] 0 ''Groww''"
  have hp: "holdings ?p = [mk_holding ''Acme Ltd'' 40, mk_holding ''Bolt Inc'' 60]"
    by (simp add: build_def)
  have mf: "alpha \<in> set (uniqueFunds two_funds)" by code_simp
  have res: "full_alpha (cf_tradingsymbol alpha) (cf_fund alpha) = Resolves ?p" by code_simp
  have dk: "distinct (map (\<lambda>h. dedup_key (h_name h)) (holdings ?p))" by code_simp
  have cs: "contributions full_alpha (uniqueFunds two_funds)
      = [(alpha, mk_holding ''Acme Ltd'' 40), (alpha, mk_holding ''Bolt Inc'' 60)]" by code_simp
  have only: "\<forall>c\<in>set (contributions full_alpha (uniqueFunds two_funds)).
                 c_key c \<in> (\<lambda>h. dedup_key (h_name h)) ` set (holdings ?p) \<longrightarrow> fst c = alpha"
    unfolding cs by simp
  have hundred: "sum_list (map h_percentage (holdings ?p)) = 100" by code_simp
  have w: "fundWeight (totalPortfolioValue (top_holdings full_alpha two_funds)) alpha = 25"
    by code_simp
  from weight_conservation[OF mf res dk only] hundred w
  have "sum_list (map (\<lambda>h. weight_of (th_holdings (top_holdings full_alpha two_funds)) (h_name h))
              (holdings ?p)) = 25"
    by simp
  moreover have "weight_of (th_holdings (top_holdings full_alpha two_funds)) ''Acme Ltd'' = 10"
    by code_simp
  moreover have "weight_of (th_holdings (top_holdings full_alpha two_funds)) ''Bolt Inc'' = 15"
    by code_simp
  ultimately show ?thesis unfolding hp by (intro conjI)
qed

text \<open>
  Alpha holds \<open>'' Acme Ltd''\<close> and Beta holds \<open>''ACME LTD ''\<close>: one record, two shares.
\<close>

theorem merge_by_dedup_key_witness:
  "\<exists>a. filter (\<lambda>a. dedup_key (a_name a) = ''acme ltd'') (th_holdings (top_holdings acme_twice two_funds)) = [a]
       \<and> a_totalValue a = 70000
       \<and> a_totalPercentage a = 35 / 2
       \<and> length (a_funds a) = 2"
proof -
  let ?ks = "[(alpha, mk_holding '' Acme Ltd'' 40), (beta_fund, mk_holding ''ACME LTD '' 10)]"
  have ks: "?ks = filter (\<lambda>c. c_key c = ''acme ltd'') (contributions acme_twice (uniqueFunds two_funds))"
    by code_simp
  have ne: "?ks \<noteq> []" by simp
  have v: "sum_list (map c_value ?ks) = 70000" by code_simp
  have p: "sum_list (map (c_weight (totalPortfolioValue (top_holdings acme_twice two_funds))) ?ks) = 35 / 2"
    by code_simp
  have c: "card (c_fund ` set ?ks) = 2" by code_simp
  from merge_by_dedup_key[OF ks ne] obtain a where
    a: "filter (\<lambda>a. dedup_key (a_name a) = ''acme ltd'') (th_holdings (top_holdings acme_twice two_funds)) = [a]"
      "a_totalValue a = sum_list (map c_value ?ks)"
      "a_totalPercentage a
           = sum_list (map (c_weight (totalPortfolioValue (top_holdings acme_twice two_funds))) ?ks)"
      "length (a_funds a) = card (c_fund ` set ?ks)"
    by blast
  show ?thesis
    by (rule exI[of _ a]) (use a v p c in simp)
qed

lemma uniqueFunds_first:
  assumes "cf \<in> set (uniqueFunds xs)"
  shows "\<exists>first. find (\<lambda>mf. fund mf = cf_fund cf) xs = Some first
           \<and> cf_tradingsymbol cf = tradingsymbol first"
proof (cases "find (\<lambda>mf. fund mf = cf_fund cf) xs")
  case None
  with uniqueFunds_entry[of "cf_fund cf" xs]
  have "filter (\<lambda>c. cf_fund c = cf_fund cf) (uniqueFunds xs) = []" by simp
  then have "\<forall>c\<in>set (uniqueFunds xs). cf_fund c \<noteq> cf_fund cf"
    by (simp add: filter_empty_conv)
  with assms have False by blast
  then show ?thesis ..
next
  case (Some first)
  let ?entry = "\<lparr> cf_tradingsymbol = tradingsymbol first, cf_fund = cf_fund cf,
      totalValue = sum_list (map folio_value (filter (\<lambda>mf. fund mf = cf_fund cf) xs)) \<rparr>"
  from Some uniqueFunds_entry[of "cf_fund cf" xs]
  have e: "filter (\<lambda>c. cf_fund c = cf_fund cf) (uniqueFunds xs) = [?entry]" by simp
  from assms have "cf \<in> set (filter (\<lambda>c. cf_fund c = cf_fund cf) (uniqueFunds xs))" by simp
  then have "cf = ?entry" unfolding e by simp
  then have "cf_tradingsymbol cf = cf_tradingsymbol ?entry" by (rule arg_cong)
  then have "cf_tradingsymbol cf = tradingsymbol first" by simp
  with Some show ?thesis by blast
qed

lemma contributions_cong:
  "\<forall>cf\<in>set funds. r' (cf_tradingsymbol cf) (cf_fund cf) = r (cf_tradingsymbol cf) (cf_fund cf)
   \<Longrightarrow> contributions r' funds = contributions r funds"
  by (induction funds) (simp_all add: contributions_def)

lemma contributions_filter_fund:
  "filter (\<lambda>c. c_fund c = f) (contributions resolve funds)
     = contributions resolve (filter (\<lambda>cf. cf_fund cf = f) funds)"
proof (induction funds)
  case Nil
  show ?case by (simp add: contributions_def)
next
  case (Cons g funds)
  have one: "filter (\<lambda>c. c_fund c = f) (contributions resolve [g])
      = (if cf_fund g = f then contributions resolve [g] else [])"
    by (auto simp: contributions_def c_fund_def filter_empty_conv split: outcome.splits)
  show ?case
  proof (cases "cf_fund g = f")
    case True
    then have "contributions resolve (filter (\<lambda>cf. cf_fund cf = f) (g # funds))
        = contributions resolve [g] @ contributions resolve (filter (\<lambda>cf. cf_fund cf = f) funds)"
      by (simp add: contributions_Cons[symmetric])
    with True Cons show ?thesis
      unfolding contributions_Cons[of resolve g funds] by (simp add: one)
  next
    case False
    with Cons show ?thesis
      unfolding contributions_Cons[of resolve g funds] by (simp add: one)
  qed
qed

lemma top_holdings_flat:
  "th_holdings (top_holdings resolve xs)
     = sort_key (\<lambda>a. - a_totalPercentage a)
         (map snd (foldl (merge1 (totalPortfolioValue (top_holdings resolve xs))) []
                     (contributions resolve (uniqueFunds xs))))"
  by (simp add: top_holdings_def Let_def aggregate_flat)

lemma top_holdings_cong:
  assumes "contributions r' (uniqueFunds xs) = contributions r (uniqueFunds xs)"
  shows "top_holdings r' xs = top_holdings r xs"
  using assms by (simp add: top_holdings_def Let_def aggregate_flat)

text \<open>
  Claim C10. Holdings with the same fund name become one fund: the consolidated list has
  distinct names, and for a name whose first holding in input order is \<open>first\<close> it has
  exactly one entry, with \<open>first\<close>'s tradingsymbol and the sum of \<open>last_price * quantity\<close>
  over all holdings of that name. The constituents that the loop merges for that name are
  those of the composition resolved under \<open>first\<close>'s tradingsymbol, and the response is the
  sorted merge of these constituents; it is the same for any two resolvers that agree at the
  first tradingsymbol of every fund name, whatever they answer for the tradingsymbols of
  later holdings of the name. The reported total is the sum over all input holdings.
\<close>

theorem consolidation_by_fund_name:
  "totalPortfolioValue (top_holdings resolve mfHoldings)
     = sum_list (map (\<lambda>mf. last_price mf * quantity mf) mfHoldings)
   \<and> totalFunds (top_holdings resolve mfHoldings) = length (uniqueFunds mfHoldings)
   \<and> distinct (map cf_fund (uniqueFunds mfHoldings))
   \<and> (\<forall>first. find (\<lambda>mf. fund mf = f) mfHoldings = Some first \<longrightarrow>
         filter (\<lambda>cf. cf_fund cf = f) (uniqueFunds mfHoldings)
           = [\<lparr> cf_tradingsymbol = tradingsymbol first, cf_fund = f,
                totalValue = sum_list (map (\<lambda>mf. last_price mf * quantity mf)
                                         (filter (\<lambda>mf. fund mf = f) mfHoldings)) \<rparr>]
         \<and> filter (\<lambda>c. c_fund c = f) (contributions resolve (uniqueFunds mfHoldings))
           = (case resolve (tradingsymbol first) f of
                Rejects \<Rightarrow> []
              | Resolves portfolio \<Rightarrow>
                  map (Pair \<lparr> cf_tradingsymbol = tradingsymbol first, cf_fund = f,
                               totalValue = sum_list (map (\<lambda>mf. last_price mf * quantity mf)
                                                        (filter (\<lambda>mf. fund mf = f) mfHoldings)) \<rparr>)
                    (holdings portfolio)))
   \<and> th_holdings (top_holdings resolve mfHoldings)
       = sort_key (\<lambda>a. - a_totalPercentage a)
           (map snd (foldl (merge1 (totalPortfolioValue (top_holdings resolve mfHoldings))) []
                       (contributions resolve (uniqueFunds mfHoldings))))
   \<and> (\<forall>resolve'.
         (\<forall>mf\<in>set mfHoldings.
            find (\<lambda>mf'. fund mf' = fund mf) mfHoldings = Some mf \<longrightarrow>
            resolve' (tradingsymbol mf) (fund mf) = resolve (tradingsymbol mf) (fund mf))
         \<longrightarrow> top_holdings resolve' mfHoldings = top_holdings resolve mfHoldings)"
proof (intro conjI allI impI)
  show "totalPortfolioValue (top_holdings resolve mfHoldings)
     = sum_list (map (\<lambda>mf. last_price mf * quantity mf) mfHoldings)"
    using consolidate_ok[of mfHoldings]
    by (simp add: top_holdings_def Let_def consolidated_ok_def folio_value_def[abs_def])
next
  show "totalFunds (top_holdings resolve mfHoldings) = length (uniqueFunds mfHoldings)"
    by (simp add: top_holdings_def Let_def)
next
  show "distinct (map cf_fund (uniqueFunds mfHoldings))" by (rule uniqueFunds_distinct)
next
  fix first assume f: "find (\<lambda>mf. fund mf = f) mfHoldings = Some first"
  let ?entry = "\<lparr> cf_tradingsymbol = tradingsymbol first, cf_fund = f,
                totalValue = sum_list (map (\<lambda>mf. last_price mf * quantity mf)
                                         (filter (\<lambda>mf. fund mf = f) mfHoldings)) \<rparr>"
  from f uniqueFunds_entry[of f mfHoldings]
  show e: "filter (\<lambda>cf. cf_fund cf = f) (uniqueFunds mfHoldings) = [?entry]"
    by (simp add: folio_value_def[abs_def])
  show "filter (\<lambda>c. c_fund c = f) (contributions resolve (uniqueFunds mfHoldings))
           = (case resolve (tradingsymbol first) f of
                Rejects \<Rightarrow> []
              | Resolves portfolio \<Rightarrow> map (Pair ?entry) (holdings portfolio))"
    unfolding contributions_filter_fund e by (simp add: contributions_def)
next
  show "th_holdings (top_holdings resolve mfHoldings)
       = sort_key (\<lambda>a. - a_totalPercentage a)
           (map snd (foldl (merge1 (totalPortfolioValue (top_holdings resolve mfHoldings))) []
                       (contributions resolve (uniqueFunds mfHoldings))))"
    by (rule top_holdings_flat)
next
  fix resolve'
  assume agree: "\<forall>mf\<in>set mfHoldings.
            find (\<lambda>mf'. fund mf' = fund mf) mfHoldings = Some mf \<longrightarrow>
            resolve' (tradingsymbol mf) (fund mf) = resolve (tradingsymbol mf) (fund mf)"
  have "\<forall>cf\<in>set (uniqueFunds mfHoldings).
      resolve' (cf_tradingsymbol cf) (cf_fund cf) = resolve (cf_tradingsymbol cf) (cf_fund cf)"
  proof
    fix cf assume "cf \<in> set (uniqueFunds mfHoldings)"
    from uniqueFunds_first[OF this] obtain first where
      fi: "find (\<lambda>mf. fund mf = cf_fund cf) mfHoldings = Some first"
      and ts: "cf_tradingsymbol cf = tradingsymbol first" by blast
    from fi have mem: "first \<in> set mfHoldings" and fu: "fund first = cf_fund cf"
      by (auto simp: find_Some_iff)
    from fi fu have "find (\<lambda>mf'. fund mf' = fund first) mfHoldings = Some first" by simp
    with agree mem have "resolve' (tradingsymbol first) (fund first) = resolve (tradingsymbol first) (fund first)"
      by blast
    with ts fu show "resolve' (cf_tradingsymbol cf) (cf_fund cf) = resolve (cf_tradingsymbol cf) (cf_fund cf)"
      by simp
  qed
  then have "contributions resolve' (uniqueFunds mfHoldings) = contributions resolve (uniqueFunds mfHoldings)"
    by (rule contributions_cong)
  then show "top_holdings resolve' mfHoldings = top_holdings resolve mfHoldings"
    by (rule top_holdings_cong)
qed

text \<open>
  Two folios of Alpha, under INF1 and then INF9, and one of Beta: Alpha is one fund under
  INF1 worth 100,000 of 400,000, its constituents are those resolved under INF1, and what a
  resolver answers for INF9 does not reach the response.
\<close>

theorem consolidation_by_fund_name_witness:
  "filter (\<lambda>cf. cf_fund cf = ''Alpha'') (uniqueFunds three_folios) = [alpha]
   \<and> filter (\<lambda>c. c_fund c = ''Alpha'') (contributions both_symbols (uniqueFunds three_folios))
       = [(alpha, mk_holding ''Acme Ltd'' 40), (alpha, mk_holding ''Bolt Inc'' 60)]
   \<and> totalPortfolioValue (top_holdings both_symbols three_folios) = 400000
   \<and> top_holdings both_symbols three_folios = top_holdings first_symbol three_folios
   \<and> map a_name (th_holdings (top_holdings both_symbols three_folios)) = [''Bolt Inc'', ''Acme Ltd'']"
proof -
  let ?first = "\<lparr> tradingsymbol = ''INF1'', fund = ''Alpha'', last_price = 1000, quantity = 60 \<rparr>"
  have f: "find (\<lambda>mf. fund mf = ''Alpha'') three_folios = Some ?first" by code_simp
  have s1: "\<lparr> cf_tradingsymbol = tradingsymbol ?first, cf_fund = ''Alpha'',
               totalValue = sum_list (map (\<lambda>mf. last_price mf * quantity mf)
                               (filter (\<lambda>mf. fund mf = ''Alpha'') three_folios)) \<rparr> = alpha"
    by code_simp
  have s2: "sum_list (map (\<lambda>mf. last_price mf * quantity mf) three_folios) = 400000"
    by code_simp
  have r: "both_symbols (tradingsymbol ?first) ''Alpha''
      = Resolves (build ''Alpha'' ''INF1'' [mk_holding ''Acme Ltd'' 40, mk_holding ''Bolt Inc'' 60] [] 0 ''Groww'')"
    by code_simp
  have agree: "\<forall>mf\<in>set three_folios.
            find (\<lambda>mf'. fund mf' = fund mf) three_folios = Some mf \<longrightarrow>
            both_symbols (tradingsymbol mf) (fund mf) = first_symbol (tradingsymbol mf) (fund mf)"
    by (simp add: three_folios_def both_symbols_def first_symbol_def symbol_resolver_def)
  note t = consolidation_by_fund_name[of first_symbol three_folios "''Alpha''"]
  note u = consolidation_by_fund_name[of both_symbols three_folios "''Alpha''"]
  note u1 = u[THEN conjunct1]
  note u4 = u[THEN conjunct2, THEN conjunct2, THEN conjunct2, THEN conjunct1, rule_format, OF f]
  note t6 = t[THEN conjunct2, THEN conjunct2, THEN conjunct2, THEN conjunct2, THEN conjunct2,
      THEN spec, THEN mp, OF agree]
  have a: "filter (\<lambda>cf. cf_fund cf = ''Alpha'') (uniqueFunds three_folios) = [alpha]"
    using u4[THEN conjunct1] unfolding s1 .
  have b: "filter (\<lambda>c. c_fund c = ''Alpha'') (contributions both_symbols (uniqueFunds three_folios))
       = [(alpha, mk_holding ''Acme Ltd'' 40), (alpha, mk_holding ''Bolt Inc'' 60)]"
    using u4[THEN conjunct2] unfolding s1 r by (simp add: build_def)
  have c: "totalPortfolioValue (top_holdings both_symbols three_folios) = 400000"
    using u1 unfolding s2 .
  have d: "top_holdings both_symbols three_folios = top_holdings first_symbol three_folios"
    by (rule t6)
  have e: "map a_name (th_holdings (top_holdings both_symbols three_folios)) = [''Bolt Inc'', ''Acme Ltd'']"
    by code_simp
  show ?thesis by (intro conjI a b c d e)
qed

section \<open>Properties of the scheduler\<close>

lemma calls_cases:
  assumes "length (calls s) \<le> 1"
  obtains "calls s = []" | c where "calls s = [c]"
  using assms by (cases "calls s") (auto simp: length_Suc_conv)

lemma inv_opened: "single_flight_inv opened"
  by (simp add: single_flight_inv_def opened_def)

lemma inv_visible: "single_flight_inv s \<Longrightarrow> mounted s \<Longrightarrow> single_flight_inv (handleHoldingVisible en fd i s)"
  by (simp add: single_flight_inv_def handleHoldingVisible_def)

lemma inv_timer_flags:
  "single_flight_inv s \<Longrightarrow> single_flight_inv (s \<lparr> debounce_set := b \<rparr>)"
  "single_flight_inv s \<Longrightarrow> single_flight_inv (s \<lparr> followups := n \<rparr>)"
  by (simp_all add: single_flight_inv_def)

lemma inv_processBatch:
  assumes "single_flight_inv s"
  shows "single_flight_inv (processBatch fd li s)"
proof (cases "mounted s")
  case True
  show ?thesis
  proof (cases "isFetching s")
    case t: True
    then show ?thesis using assms by (simp add: processBatch_def split: option.splits)
  next
    case False
    with assms True have "calls s = []" by (simp add: single_flight_inv_def)
    with assms True False show ?thesis
      by (simp add: processBatch_def single_flight_inv_def Let_def split: option.splits)
  qed
next
  case False
  with assms have "pendingIndices s = []" by (simp add: single_flight_inv_def)
  then have "processBatch fd li s = s"
    by (simp add: processBatch_def Let_def split: option.splits)
  with assms show ?thesis by simp
qed

lemma after_try_frame:
  "calls (after_try r c s) = calls s" "mounted (after_try r c s) = mounted s"
  "pendingIndices (after_try r c s) = pendingIndices s"
  "abortController (after_try r c s) = abortController s"
  "isFetching (after_try r c s) = isFetching s"
  "followups (after_try r c s) = followups s"
  by (simp_all add: after_try_def Let_def split: reply.splits option.splits)

lemma inv_completes:
  assumes inv: "single_flight_inv s" and f: "find (\<lambda>c. c_id c = n) (calls s) = Some c"
  shows "single_flight_inv (after_finally c (after_try r c s))"
    and "calls (after_finally c (after_try r c s)) = []"
proof -
  from inv have "length (calls s) \<le> 1" by (simp add: single_flight_inv_def)
  then have cs: "calls s = [c]"
  proof (cases rule: calls_cases)
    case 1
    with f show ?thesis by simp
  next
    case (2 c')
    with f show ?thesis by (simp split: if_splits)
  qed
  show e: "calls (after_finally c (after_try r c s)) = []"
    by (simp add: after_finally_def after_try_frame cs)
  from inv have "\<not> mounted s \<Longrightarrow> pendingIndices s = []" by (simp add: single_flight_inv_def)
  then show "single_flight_inv (after_finally c (after_try r c s))"
    unfolding single_flight_inv_def e
    by (simp add: after_finally_def after_try_frame)
qed

lemma inv_cleanup: "single_flight_inv s \<Longrightarrow> mounted s \<Longrightarrow> single_flight_inv (cleanup s)"
  by (cases rule: calls_cases[of s]) (auto simp: single_flight_inv_def cleanup_def)

lemma inv_step:
  assumes "single_flight_inv s" and "step e s = Some s'"
  shows "single_flight_inv s'"
proof (cases e)
  case (Visible i en fd)
  with assms show ?thesis by (auto simp: inv_visible split: if_splits)
next
  case (DebounceFires fd li)
  with assms show ?thesis by (auto simp: inv_processBatch inv_timer_flags split: if_splits)
next
  case (FollowupFires fd li)
  with assms show ?thesis by (auto simp: inv_processBatch inv_timer_flags split: if_splits)
next
  case (Completes n r)
  with assms show ?thesis by (auto simp: inv_completes split: option.splits if_splits)
next
  case (DataLoaded fd en)
  with assms show ?thesis by (auto simp: single_flight_inv_def split: if_splits)
next
  case EnablePE
  with assms show ?thesis by (auto simp: single_flight_inv_def enablePELoading_def split: if_splits)
next
  case Unmount
  with assms show ?thesis by (auto simp: inv_cleanup split: if_splits)
qed

lemma inv_run: "single_flight_inv s \<Longrightarrow> run es s = Some s' \<Longrightarrow> single_flight_inv s'"
proof (induction es arbitrary: s)
  case Nil
  then show ?case by simp
next
  case (Cons e es)
  then show ?case by (auto split: option.splits dest: inv_step)
qed

lemma in_flight_fetching:
  assumes "single_flight_inv s" and "outstanding s \<noteq> []"
  shows "mounted s \<and> isFetching s"
proof -
  from assms(2) obtain c where c: "c \<in> set (calls s)" "\<not> c_aborted c"
    by (auto simp: outstanding_def filter_empty_conv)
  show ?thesis
  proof (cases "mounted s")
    case True
    with assms(1) c show ?thesis by (auto simp: single_flight_inv_def)
  next
    case False
    with assms(1) c show ?thesis by (auto simp: single_flight_inv_def list_all_iff)
  qed
qed

lemma processBatch_in_flight:
  "isFetching s \<Longrightarrow> calls (processBatch fd li s) = calls s
     \<and> pendingIndices (processBatch fd li s) = pendingIndices s"
  by (simp add: processBatch_def split: option.splits)

text \<open>
  Claim C9. In every state the modal reaches from its opening, at most one batch call is
  outstanding. While one is, a row becoming visible issues nothing and at most adds its
  index to the pending set, and \<open>processBatch\<close> run by either timer issues nothing and leaves
  the pending set as it is; so a pending index is issued only by a \<open>processBatch\<close> that runs
  after the call in flight has completed. The completion leaves no call in flight and sets a
  follow-up timer exactly when the pending set is not empty.
\<close>

theorem scheduler_single_flight:
  assumes "run evs opened = Some s"
  shows "length (outstanding s) \<le> 1
   \<and> (\<forall>i en fd s'. outstanding s \<noteq> [] \<and> step (Visible i en fd) s = Some s' \<longrightarrow>
         calls s' = calls s \<and> fetchedIndices s' = fetchedIndices s \<and> isFetching s' = isFetching s
         \<and> (pendingIndices s' = pendingIndices s \<or> pendingIndices s' = set_add i (pendingIndices s)))
   \<and> (\<forall>fd li s'. outstanding s \<noteq> [] \<and> step (DebounceFires fd li) s = Some s' \<longrightarrow>
         calls s' = calls s \<and> pendingIndices s' = pendingIndices s)
   \<and> (\<forall>fd li s'. outstanding s \<noteq> [] \<and> step (FollowupFires fd li) s = Some s' \<longrightarrow>
         calls s' = calls s \<and> pendingIndices s' = pendingIndices s)
   \<and> (\<forall>n r s'. step (Completes n r) s = Some s' \<longrightarrow>
         calls s' = [] \<and> \<not> isFetching s'
         \<and> followups s' = (if pendingIndices s' \<noteq> [] then Suc (followups s) else followups s))"
proof -
  have inv: "single_flight_inv s" by (rule inv_run[OF inv_opened assms])
  have one: "length (outstanding s) \<le> 1"
  proof -
    have "length (outstanding s) \<le> length (calls s)" by (simp add: outstanding_def)
    also from inv have "\<dots> \<le> 1" by (simp add: single_flight_inv_def)
    finally show ?thesis .
  qed
  have vis: "\<forall>i en fd s'. outstanding s \<noteq> [] \<and> step (Visible i en fd) s = Some s' \<longrightarrow>
         calls s' = calls s \<and> fetchedIndices s' = fetchedIndices s \<and> isFetching s' = isFetching s
         \<and> (pendingIndices s' = pendingIndices s \<or> pendingIndices s' = set_add i (pendingIndices s))"
    by (auto simp: handleHoldingVisible_def split: if_splits)
  have deb: "\<forall>fd li s'. outstanding s \<noteq> [] \<and> step (DebounceFires fd li) s = Some s' \<longrightarrow>
         calls s' = calls s \<and> pendingIndices s' = pendingIndices s"
  proof (intro allI impI)
    fix fd li s' assume a: "outstanding s \<noteq> [] \<and> step (DebounceFires fd li) s = Some s'"
    with in_flight_fetching[OF inv] have f: "isFetching (s \<lparr> debounce_set := False \<rparr>)" by simp
    from a have "s' = processBatch fd li (s \<lparr> debounce_set := False \<rparr>)" by (auto split: if_splits)
    with processBatch_in_flight[OF f, of fd li] show "calls s' = calls s \<and> pendingIndices s' = pendingIndices s"
      by simp
  qed
  have fol: "\<forall>fd li s'. outstanding s \<noteq> [] \<and> step (FollowupFires fd li) s = Some s' \<longrightarrow>
         calls s' = calls s \<and> pendingIndices s' = pendingIndices s"
  proof (intro allI impI)
    fix fd li s' assume a: "outstanding s \<noteq> [] \<and> step (FollowupFires fd li) s = Some s'"
    with in_flight_fetching[OF inv] have f: "isFetching (s \<lparr> followups := followups s - 1 \<rparr>)" by simp
    from a have "s' = processBatch fd li (s \<lparr> followups := followups s - 1 \<rparr>)" by (auto split: if_splits)
    with processBatch_in_flight[OF f, of fd li] show "calls s' = calls s \<and> pendingIndices s' = pendingIndices s"
      by simp
  qed
  have com: "\<forall>n r s'. step (Completes n r) s = Some s' \<longrightarrow>
         calls s' = [] \<and> \<not> isFetching s'
         \<and> followups s' = (if pendingIndices s' \<noteq> [] then Suc (followups s) else followups s)"
  proof (intro allI impI)
    fix n r s' assume a: "step (Completes n r) s = Some s'"
    then obtain c where c: "find (\<lambda>c. c_id c = n) (calls s) = Some c"
      and s': "s' = after_finally c (after_try r c s)"
      by (auto split: option.splits if_splits)
    from inv_completes(2)[OF inv c, of r] have "calls s' = []" by (simp add: s')
    moreover have "\<not> isFetching s'" by (simp add: s' after_finally_def)
    moreover have "followups s' = (if pendingIndices s' \<noteq> [] then Suc (followups s) else followups s)"
      by (simp add: s' after_finally_def after_try_frame)
    ultimately show "calls s' = [] \<and> \<not> isFetching s'
         \<and> followups s' = (if pendingIndices s' \<noteq> [] then Suc (followups s) else followups s)"
      by (intro conjI)
  qed
  show ?thesis by (intro conjI one vis deb fol com)
qed

text \<open>
  Five rows become visible and the debounce timer fires: one call with the five names. A
  sixth row becomes visible during the call: it is pending, and the debounce timer firing
  again issues nothing. After the response the follow-up timer issues the sixth name.
\<close>

theorem scheduler_single_flight_witness:
  "\<exists>s. run burst opened = Some s
     \<and> length (outstanding s) \<le> 1
     \<and> map c_stocks (outstanding s) = [[''r0'', ''r1'', ''r2'', ''r3'', ''r4'']]
     \<and> pendingIndices s = [5]
     \<and> map_option (\<lambda>s'. (map c_stocks (outstanding s'), pendingIndices s'))
          (run [DebounceFires (Some six_rows) {}] s)
         = Some ([[''r0'', ''r1'', ''r2'', ''r3'', ''r4'']], [5])
     \<and> map_option (\<lambda>s'. (map c_stocks (outstanding s'), pendingIndices s'))
          (run [DebounceFires (Some six_rows) {}, Completes 0 (ReplyOk []),
                FollowupFires (Some six_rows) {}] s)
         = Some ([[''r5'']], [])"
proof -
  have e: "map_option (\<lambda>s. (map c_stocks (outstanding s), pendingIndices s,
              map_option (\<lambda>s'. (map c_stocks (outstanding s'), pendingIndices s'))
                (run [DebounceFires (Some six_rows) {}] s),
              map_option (\<lambda>s'. (map c_stocks (outstanding s'), pendingIndices s'))
                (run [DebounceFires (Some six_rows) {}, Completes 0 (ReplyOk []),
                      FollowupFires (Some six_rows) {}] s)))
            (run burst opened)
         = Some ([[''r0'', ''r1'', ''r2'', ''r3'', ''r4'']], [5],
                 Some ([[''r0'', ''r1'', ''r2'', ''r3'', ''r4'']], [5]),
                 Some ([[''r5'']], []))"
    by code_simp
  then obtain s where r: "run burst opened = Some s"
    and a: "map c_stocks (outstanding s) = [[''r0'', ''r1'', ''r2'', ''r3'', ''r4'']]"
    and b: "pendingIndices s = [5]"
    and c: "map_option (\<lambda>s'. (map c_stocks (outstanding s'), pendingIndices s'))
          (run [DebounceFires (Some six_rows) {}] s)
         = Some ([[''r0'', ''r1'', ''r2'', ''r3'', ''r4'']], [5])"
    and d: "map_option (\<lambda>s'. (map c_stocks (outstanding s'), pendingIndices s'))
          (run [DebounceFires (Some six_rows) {}, Completes 0 (ReplyOk []),
                FollowupFires (Some six_rows) {}] s)
         = Some ([[''r5'']], [])"
    by (cases "run burst opened") auto
  from scheduler_single_flight[OF r] have l: "length (outstanding s) \<le> 1" by (rule conjunct1)
  show ?thesis by (rule exI[of _ s]) (intro conjI r l a b c d)
qed

end
